theory Spec2Isabelle
  imports Complex_Main "HOL-Library.AList"
begin

section \<open>Python values used by the presolve engine\<close>

text \<open>
  The engine is the class \<open>PresolveComillas\<close> of \<open>presolve_class.py\<close>. Its methods
  mutate the fields of \<open>self\<close>; here every method takes the LP state and returns the
  new one, or the exception it raises. Floating-point numbers are modelled as reals.
\<close>

datatype error = IndexError | ValueError | TypeError

text \<open>Python's \<open>for x in xs: body\<close> over a state, stopping at the first exception.\<close>

fun for_loop :: "('a \<Rightarrow> 's \<Rightarrow> error + 's) \<Rightarrow> 'a list \<Rightarrow> 's \<Rightarrow> error + 's" where
  "for_loop f [] s = Inr s"
| "for_loop f (x # xs) s = (case f x s of Inl e \<Rightarrow> Inl e | Inr s' \<Rightarrow> for_loop f xs s')"

text \<open>\<open>xs[i]\<close> and \<open>del xs[i]\<close> on a Python list, for an index that is not negative.\<close>

definition py_get :: "'a list \<Rightarrow> nat \<Rightarrow> error + 'a" where
  "py_get xs i = (if i < length xs then Inr (xs ! i) else Inl IndexError)"

definition py_del :: "'a list \<Rightarrow> nat \<Rightarrow> error + 'a list" where
  "py_del xs i = (if i < length xs then Inr (take i xs @ drop (Suc i) xs) else Inl IndexError)"

text \<open>
  \<open>np.delete(xs, idxs)\<close> along one axis: every index must be in range; each named
  position is removed once, however often it is named.
\<close>

definition keep_unlisted :: "nat list \<Rightarrow> 'a list \<Rightarrow> 'a list" where
  "keep_unlisted idxs xs = map snd (filter (\<lambda>p. fst p \<notin> set idxs) (enumerate 0 xs))"

definition np_delete :: "'a list \<Rightarrow> nat list \<Rightarrow> error + 'a list" where
  "np_delete xs idxs =
     (if list_all (\<lambda>i. i < length xs) idxs then Inr (keep_unlisted idxs xs) else Inl IndexError)"

text \<open>
  The bound vectors \<open>lb\<close> and \<open>ub\<close> are Python lists or NumPy arrays, depending on the
  rule that last touched them: \<open>np.delete\<close> accepts both and returns an array, while
  \<open>del v[i]\<close> works on a list and raises \<open>ValueError\<close> on an array.
\<close>

datatype pyvec = PyList "real list" | NdArray "real list"

fun elems :: "pyvec \<Rightarrow> real list" where
  "elems (PyList xs) = xs"
| "elems (NdArray xs) = xs"

fun vec_del :: "pyvec \<Rightarrow> nat \<Rightarrow> error + pyvec" where
  "vec_del (PyList xs) i = (case py_del xs i of Inl e \<Rightarrow> Inl e | Inr ys \<Rightarrow> Inr (PyList ys))"
| "vec_del (NdArray xs) i = Inl ValueError"

definition vec_np_delete :: "pyvec \<Rightarrow> nat list \<Rightarrow> error + pyvec" where
  "vec_np_delete v idxs =
     (case np_delete (elems v) idxs of Inl e \<Rightarrow> Inl e | Inr ys \<Rightarrow> Inr (NdArray ys))"

text \<open>
  NumPy's \<open>xs - ys\<close> on one-dimensional operands: equal lengths, or one of them of
  length one, which is broadcast; otherwise \<open>ValueError\<close>.
\<close>

definition np_sub :: "real list \<Rightarrow> real list \<Rightarrow> error + real list" where
  "np_sub xs ys =
     (if length xs = length ys then Inr (map2 (-) xs ys)
      else if length ys = 1 then Inr (map (\<lambda>x. x - hd ys) xs)
      else if length xs = 1 then Inr (map (\<lambda>y. hd xs - y) ys)
      else Inl ValueError)"

subsection \<open>The constraint matrix\<close>

text \<open>
  \<open>self.A\<close> is a SciPy CSR matrix; the rules read it through its dense form
  \<open>self.A.A\<close>, a two-dimensional array whose shape keeps the number of columns when
  no row is left. \<open>nnz\<close> counts the nonzero entries (a matrix built from a dense array
  stores no explicit zero).
\<close>

record matrix =
  ncols :: nat
  rws :: "real list list"

definition wf_matrix :: "matrix \<Rightarrow> bool" where
  "wf_matrix M = list_all (\<lambda>r. length r = ncols M) (rws M)"

definition num_rows :: "matrix \<Rightarrow> nat" where
  "num_rows M = length (rws M)"

definition count_nonzero :: "real list \<Rightarrow> nat" where
  "count_nonzero r = length (filter (\<lambda>x. x \<noteq> 0) r)"

definition nnz :: "matrix \<Rightarrow> nat" where
  "nnz M = sum_list (map count_nonzero (rws M))"

text \<open>\<open>np.nonzero(r)[0]\<close>: the positions of the nonzero entries, ascending.\<close>

definition nonzero :: "real list \<Rightarrow> nat list" where
  "nonzero r = map fst (filter (\<lambda>p. snd p \<noteq> 0) (enumerate 0 r))"

definition column :: "matrix \<Rightarrow> nat \<Rightarrow> real list" where
  "column M j = map (\<lambda>r. r ! j) (rws M)"

text \<open>\<open>np.delete(A.toarray(), idxs, axis=0)\<close> and \<open>axis=1\<close>.\<close>

definition delete_rows :: "matrix \<Rightarrow> nat list \<Rightarrow> error + matrix" where
  "delete_rows M idxs =
     (case np_delete (rws M) idxs of Inl e \<Rightarrow> Inl e | Inr rs \<Rightarrow> Inr (M\<lparr>rws := rs\<rparr>))"

definition delete_cols :: "matrix \<Rightarrow> nat list \<Rightarrow> error + matrix" where
  "delete_cols M idxs =
     (if list_all (\<lambda>j. j < ncols M) idxs
      then Inr \<lparr>ncols = length (keep_unlisted idxs [0..<ncols M]),
                rws = map (keep_unlisted idxs) (rws M)\<rparr>
      else Inl IndexError)"

subsection \<open>The change journal\<close>

text \<open>
  \<open>change_dictionary\<close> is a \<open>defaultdict\<close> of nested dictionaries. A dictionary keeps
  its keys in insertion order; assigning to a key that exists keeps its place.
  \<open>JNamesRef\<close> is a reference to the list object \<open>self.variable_names\<close>, which the
  k-ton rule stores without copying it.
\<close>

datatype jval =
    JNat nat
  | JNats "nat list"
  | JReal real
  | JReals "real list"
  | JNamesRef
  | JDict "(string \<times> jval) list"

text \<open>\<open>d[k1][k2]...[kn] = v\<close>: a missing key on the way is created as an empty dictionary.\<close>

fun jset :: "string list \<Rightarrow> jval \<Rightarrow> jval \<Rightarrow> error + jval" where
  "jset [] v t = Inr v"
| "jset (key # ks) v (JDict kvs) =
     (case jset ks v (case map_of kvs key of None \<Rightarrow> JDict [] | Some t \<Rightarrow> t) of
        Inl e \<Rightarrow> Inl e
      | Inr t' \<Rightarrow> Inr (JDict (AList.update key t' kvs)))"
| "jset (key # ks) v t = Inl TypeError"

fun jget :: "string list \<Rightarrow> jval \<Rightarrow> jval option" where
  "jget [] t = Some t"
| "jget (key # ks) (JDict kvs) = (case map_of kvs key of None \<Rightarrow> None | Some t \<Rightarrow> jget ks t)"
| "jget (key # ks) t = None"

subsection \<open>The LP state\<close>

datatype objective_sense = Minimize | Maximize

datatype sense = LE | GE | EQ

text \<open>The warnings of the engine, all raised with \<open>warnings.warn(..., RuntimeWarning)\<close>.\<close>

datatype warning =
    Infeasible_zero_row
  | Unbounded_zero_column
  | Infeasible_negative_variable
  | Infeasible_singleton_inequality
  | Infeasible_dual_singleton
  | Infeasible_implied_bound nat

datatype warning_kind = Infeasibility | Unboundedness

fun kind_of :: "warning \<Rightarrow> warning_kind" where
  "kind_of Unbounded_zero_column = Unboundedness"
| "kind_of w = Infeasibility"

text \<open>
  The fields of \<open>self\<close>. The one-letter fields carry the prefix \<open>self_\<close>;
  \<open>warnings\<close> collects the warnings emitted so far.
\<close>

record lp_state =
  self_A :: matrix
  self_b :: "real list"
  self_c :: "real list"
  self_co :: real
  self_lb :: pyvec
  self_ub :: pyvec
  of_sense :: objective_sense
  cons_senses :: "sense list"
  variable_names :: "string list"
  original_row_index :: "nat list"
  original_column_index :: "nat list"
  change_dictionary :: jval
  operation_table :: "(string \<times> nat \<times> nat \<times> nat) list"
  warnings :: "warning list"

definition warn :: "warning \<Rightarrow> lp_state \<Rightarrow> lp_state" where
  "warn w s = s\<lparr>warnings := warnings s @ [w]\<rparr>"

text \<open>
  \<open>self.operation_table.append((label, len(self.cons_senses),
  len(self.variable_names), self.A.nnz))\<close>
\<close>

definition append_operation :: "string \<Rightarrow> lp_state \<Rightarrow> lp_state" where
  "append_operation label s =
     s\<lparr>operation_table := operation_table s @
          [(label, length (cons_senses s), length (variable_names s), nnz (self_A s))]\<rparr>"

text \<open>
  The loop every row-deleting rule ends with:
  \<open>for index in sorted(to_delete, reverse=True):
      del self.b[index]; del self.cons_senses[index]; del self.original_row_index[index]\<close>
\<close>

definition del_row_entries :: "nat \<Rightarrow> lp_state \<Rightarrow> error + lp_state" where
  "del_row_entries i s =
     (case py_del (self_b s) i of Inl e \<Rightarrow> Inl e | Inr b' \<Rightarrow>
      (case py_del (cons_senses s) i of Inl e \<Rightarrow> Inl e | Inr cs' \<Rightarrow>
       (case py_del (original_row_index s) i of Inl e \<Rightarrow> Inl e | Inr ori' \<Rightarrow>
          Inr (s\<lparr>self_b := b', cons_senses := cs', original_row_index := ori'\<rparr>))))"

definition sorted_reverse :: "nat list \<Rightarrow> nat list" where
  "sorted_reverse idxs = rev (sort idxs)"

definition set_journal :: "string list \<Rightarrow> jval \<Rightarrow> lp_state \<Rightarrow> error + lp_state" where
  "set_journal path v s =
     (case jset path v (change_dictionary s) of
        Inl e \<Rightarrow> Inl e
      | Inr cd \<Rightarrow> Inr (s\<lparr>change_dictionary := cd\<rparr>))"

section \<open>Zero rows\<close>

text \<open>
  The loop body of \<open>eliminate_zero_rows\<close>; the accumulator holds \<open>to_delete\<close>,
  \<open>to_delete_original\<close> and the warnings emitted.
\<close>

definition zero_rows_body ::
  "lp_state \<Rightarrow> nat \<Rightarrow> nat list \<times> nat list \<times> warning list
     \<Rightarrow> error + (nat list \<times> nat list \<times> warning list)" where
  "zero_rows_body s i acc =
     (case acc of (to_delete, to_delete_original, ws) \<Rightarrow>
       if list_all (\<lambda>x. x = 0) (rws (self_A s) ! i) then
         (case py_get (self_b s) i of Inl e \<Rightarrow> Inl e | Inr b_i \<Rightarrow>
            if b_i \<le> 0 then
              (case py_get (original_row_index s) i of Inl e \<Rightarrow> Inl e | Inr oi \<Rightarrow>
                 Inr (to_delete @ [i], to_delete_original @ [oi], ws))
            else Inr (to_delete, to_delete_original, ws @ [Infeasible_zero_row]))
       else Inr acc)"

definition eliminate_zero_rows :: "lp_state \<Rightarrow> error + lp_state" where
  "eliminate_zero_rows s =
     (case for_loop (zero_rows_body s) [0..<num_rows (self_A s)] ([], [], []) of
        Inl e \<Rightarrow> Inl e
      | Inr (to_delete, to_delete_original, ws) \<Rightarrow>
     (case delete_rows (self_A s) to_delete of Inl e \<Rightarrow> Inl e | Inr A' \<Rightarrow>
     (case for_loop del_row_entries (sorted_reverse to_delete)
             (s\<lparr>self_A := A', warnings := warnings s @ ws\<rparr>) of
        Inl e \<Rightarrow> Inl e
      | Inr s1 \<Rightarrow>
     (case set_journal [''eliminate_zero_rows'', ''deleted_rows_indices'']
             (JNats to_delete_original) s1 of
        Inl e \<Rightarrow> Inl e
      | Inr s2 \<Rightarrow> Inr (append_operation ''Eliminate Zero Rows'' s2)))))"

section \<open>Zero columns\<close>

definition zero_columns_body ::
  "lp_state \<Rightarrow> nat \<Rightarrow> nat list \<times> nat list \<times> (string \<times> jval) list \<times> warning list
     \<Rightarrow> error + (nat list \<times> nat list \<times> (string \<times> jval) list \<times> warning list)" where
  "zero_columns_body s j acc =
     (case acc of (to_delete, to_delete_original, solution, ws) \<Rightarrow>
       if list_all (\<lambda>x. x = 0) (column (self_A s) j) then
         (case py_get (self_c s) j of Inl e \<Rightarrow> Inl e | Inr c_j \<Rightarrow>
            if c_j \<ge> 0 then
              (case py_get (original_column_index s) j of Inl e \<Rightarrow> Inl e | Inr oj \<Rightarrow>
              (case py_get (variable_names s) j of Inl e \<Rightarrow> Inl e | Inr var_to_del \<Rightarrow>
                 Inr (to_delete @ [j], to_delete_original @ [oj],
                      AList.update var_to_del (JReal 0) solution, ws)))
            else Inr (to_delete, to_delete_original, solution, ws @ [Unbounded_zero_column]))
       else Inr acc)"

text \<open>
  \<open>del self.c[index]; del self.variable_names[index]; self.lb = np.delete(self.lb, index);
  self.ub = np.delete(self.ub, index); del self.original_column_index[index]\<close>
\<close>

definition zero_columns_del :: "nat \<Rightarrow> lp_state \<Rightarrow> error + lp_state" where
  "zero_columns_del j s =
     (case py_del (self_c s) j of Inl e \<Rightarrow> Inl e | Inr c' \<Rightarrow>
     (case py_del (variable_names s) j of Inl e \<Rightarrow> Inl e | Inr vn' \<Rightarrow>
     (case vec_np_delete (self_lb s) [j] of Inl e \<Rightarrow> Inl e | Inr lb' \<Rightarrow>
     (case vec_np_delete (self_ub s) [j] of Inl e \<Rightarrow> Inl e | Inr ub' \<Rightarrow>
     (case py_del (original_column_index s) j of Inl e \<Rightarrow> Inl e | Inr oci' \<Rightarrow>
        Inr (s\<lparr>self_c := c', self_lb := lb', self_ub := ub', variable_names := vn',
               original_column_index := oci'\<rparr>))))))"

definition eliminate_zero_columns :: "lp_state \<Rightarrow> error + lp_state" where
  "eliminate_zero_columns s =
     (case for_loop (zero_columns_body s) [0..<ncols (self_A s)] ([], [], [], []) of
        Inl e \<Rightarrow> Inl e
      | Inr (to_delete, to_delete_original, solution, ws) \<Rightarrow>
     (case delete_cols (self_A s) to_delete of Inl e \<Rightarrow> Inl e | Inr A' \<Rightarrow>
     (case for_loop zero_columns_del (sorted_reverse to_delete)
             (s\<lparr>self_A := A', warnings := warnings s @ ws\<rparr>) of
        Inl e \<Rightarrow> Inl e
      | Inr s1 \<Rightarrow>
     (case set_journal [''eliminate_zero_columns'', ''deleted_columns'']
             (JNats to_delete_original) s1 of
        Inl e \<Rightarrow> Inl e
      | Inr s2 \<Rightarrow>
     (case set_journal [''eliminate_zero_columns'', ''solution''] (JDict solution) s2 of
        Inl e \<Rightarrow> Inl e
      | Inr s3 \<Rightarrow> Inr (append_operation ''Eliminate Zero Columns'' s3))))))"

section \<open>The negative-counterpart detector\<close>

text \<open>
  Modelled from the spec: \<open>find_corresponding_negative_rows_with_indices\<close> is imported
  from \<open>utils_functions\<close>, which is not part of the sources at hand. The spec (4.3)
  gives its contract: \<open>has_pair[i]\<close> iff there is \<open>j \<noteq> i\<close> with \<open>A[j,:] = -A[i,:]\<close> and
  \<open>b[j] = -b[i]\<close>, and \<open>mate[i]\<close> is such a \<open>j\<close> (here the first one), undefined
  (\<open>None\<close>) when there is none. Mismatched dimensions are reported as an error
  (spec, 7).
\<close>

definition negative_counterparts :: "matrix \<Rightarrow> real list \<Rightarrow> nat \<Rightarrow> nat list" where
  "negative_counterparts M bs i =
     filter (\<lambda>j. j \<noteq> i \<and> rws M ! j = map uminus (rws M ! i) \<and> bs ! j = - (bs ! i))
       [0..<num_rows M]"

definition find_corresponding_negative_rows_with_indices ::
  "matrix \<Rightarrow> real list \<Rightarrow> error + (bool list \<times> nat option list)" where
  "find_corresponding_negative_rows_with_indices M bs =
     (if length bs \<noteq> num_rows M then Inl ValueError
      else Inr (map (\<lambda>i. negative_counterparts M bs i \<noteq> []) [0..<num_rows M],
                map (\<lambda>i. case negative_counterparts M bs i of [] \<Rightarrow> None | j # _ \<Rightarrow> Some j)
                  [0..<num_rows M]))"

text \<open>\<open>np.where(valid)[0][0] if np.any(valid) else None\<close>\<close>

definition first_true :: "bool list \<Rightarrow> nat option" where
  "first_true bs = map_option fst (find snd (enumerate 0 bs))"

section \<open>Singleton equalities\<close>

text \<open>
  The branch \<open>x_k >= 0\<close> of \<open>eliminate_singleton_equalities\<close>: the variable of column
  \<open>k_index\<close> is fixed at \<open>x_k\<close>; the row, its mate and the column are deleted.
\<close>

definition fix_singleton ::
  "lp_state \<Rightarrow> (string \<times> jval) list \<Rightarrow> nat \<Rightarrow> nat \<Rightarrow> real \<Rightarrow> nat option
     \<Rightarrow> error + (lp_state \<times> (string \<times> jval) list)" where
  "fix_singleton s solution i k_index x_k mate_opt =
     (case mate_opt of None \<Rightarrow> Inl TypeError | Some mate \<Rightarrow>
     (case py_get (original_row_index s) i of Inl e \<Rightarrow> Inl e | Inr ori_i \<Rightarrow>
     (case py_get (original_row_index s) mate of Inl e \<Rightarrow> Inl e | Inr ori_mate \<Rightarrow>
     (case py_get (original_column_index s) k_index of Inl e \<Rightarrow> Inl e | Inr oci_k \<Rightarrow>
     (case py_get (variable_names s) k_index of Inl e \<Rightarrow> Inl e | Inr var_to_del \<Rightarrow>
     (case np_sub (self_b s) (map (\<lambda>a. a * x_k) (column (self_A s) k_index)) of
        Inl e \<Rightarrow> Inl e
      | Inr b1 \<Rightarrow>
     (case for_loop del_row_entries (sorted_reverse [i, mate]) (s\<lparr>self_b := b1\<rparr>) of
        Inl e \<Rightarrow> Inl e
      | Inr s1 \<Rightarrow>
     (case py_get (self_c s1) k_index of Inl e \<Rightarrow> Inl e | Inr c_k \<Rightarrow>
     (case delete_rows (self_A s1) [i, mate] of Inl e \<Rightarrow> Inl e | Inr A1 \<Rightarrow>
     (case delete_cols A1 [k_index] of Inl e \<Rightarrow> Inl e | Inr A2 \<Rightarrow>
     (case py_del (self_c s1) k_index of Inl e \<Rightarrow> Inl e | Inr c' \<Rightarrow>
     (case vec_np_delete (self_lb s1) [k_index] of Inl e \<Rightarrow> Inl e | Inr lb' \<Rightarrow>
     (case vec_np_delete (self_ub s1) [k_index] of Inl e \<Rightarrow> Inl e | Inr ub' \<Rightarrow>
     (case py_del (variable_names s1) k_index of Inl e \<Rightarrow> Inl e | Inr vn' \<Rightarrow>
     (case py_del (original_column_index s1) k_index of Inl e \<Rightarrow> Inl e | Inr oci' \<Rightarrow>
     (case set_journal [''eliminate_singleton_equalities'', var_to_del,
                        ''deleted_variables_indices''] (JNat oci_k)
             (s1\<lparr>self_co := (if c_k \<noteq> 0 then self_co s1 - c_k * x_k else self_co s1),
                  self_A := A2, self_c := c', self_lb := lb', self_ub := ub',
                  variable_names := vn', original_column_index := oci'\<rparr>) of
        Inl e \<Rightarrow> Inl e
      | Inr s2 \<Rightarrow>
     (case set_journal [''eliminate_singleton_equalities'', var_to_del,
                        ''deleted_rows_indices''] (JNats [ori_i, ori_mate]) s2 of
        Inl e \<Rightarrow> Inl e
      | Inr s3 \<Rightarrow> Inr (s3, AList.update var_to_del (JReal x_k) solution))))))))))))))))))"

text \<open>
  One iteration of \<open>while found_singleton:\<close>. The first component of the result is
  the value of \<open>found_singleton\<close> at the end of the iteration.
\<close>

definition singleton_equalities_step ::
  "lp_state \<times> (string \<times> jval) list \<Rightarrow> error + (bool \<times> lp_state \<times> (string \<times> jval) list)" where
  "singleton_equalities_step st =
     (case st of (s, solution) \<Rightarrow>
     (case find_corresponding_negative_rows_with_indices (self_A s) (self_b s) of
        Inl e \<Rightarrow> Inl e
      | Inr (has_negative_counterpart, indices_list) \<Rightarrow>
     (case first_true (map2 (\<and>) (map (\<lambda>r. count_nonzero r = 1) (rws (self_A s)))
                          has_negative_counterpart) of
        None \<Rightarrow> Inr (False, s, solution)
      | Some i \<Rightarrow>
     (case nonzero (rws (self_A s) ! i) of [] \<Rightarrow> Inl IndexError | k_index # _ \<Rightarrow>
     (case py_get (self_b s) i of Inl e \<Rightarrow> Inl e | Inr b_i \<Rightarrow>
        (if b_i / (rws (self_A s) ! i ! k_index) \<ge> 0 then
           (case fix_singleton s solution i k_index (b_i / (rws (self_A s) ! i ! k_index))
                   (indices_list ! i) of
              Inl e \<Rightarrow> Inl e
            | Inr (s', solution') \<Rightarrow> Inr (True, s', solution'))
         else Inr (True, warn Infeasible_negative_variable s, solution)))))))"

text \<open>
  The loop may not end, so it is a partial function: \<open>None\<close> is "does not return".
\<close>

partial_function (option) singleton_equalities_loop ::
  "lp_state \<times> (string \<times> jval) list \<Rightarrow> (error + lp_state \<times> (string \<times> jval) list) option" where
  "singleton_equalities_loop st =
     (case singleton_equalities_step st of
        Inl e \<Rightarrow> Some (Inl e)
      | Inr (found_singleton, st') \<Rightarrow>
          if found_singleton then singleton_equalities_loop st' else Some (Inr st'))"

declare singleton_equalities_loop.simps [code]

definition eliminate_singleton_equalities :: "lp_state \<Rightarrow> (error + lp_state) option" where
  "eliminate_singleton_equalities s =
     (case singleton_equalities_loop (s, []) of
        None \<Rightarrow> None
      | Some (Inl e) \<Rightarrow> Some (Inl e)
      | Some (Inr (s1, solution)) \<Rightarrow>
     (case set_journal [''eliminate_singleton_equalities'', ''solutions''] (JDict solution) s1 of
        Inl e \<Rightarrow> Some (Inl e)
      | Inr s2 \<Rightarrow> Some (Inr (append_operation ''Eliminate Singleton Equalities'' s2))))"

section \<open>k-ton equalities\<close>

text \<open>
  The loop \<open>for i in range(self.A.A.shape[0]): if i != first_kton_index: ...\<close> that
  eliminates the pivot column from the other rows; the state is the matrix and \<open>b\<close>.
\<close>

definition kton_eliminate_row ::
  "nat \<Rightarrow> nat \<Rightarrow> nat \<Rightarrow> matrix \<times> real list \<Rightarrow> error + (matrix \<times> real list)" where
  "kton_eliminate_row first_kton_index kton_column i st =
     (case st of (M, bs) \<Rightarrow>
       if i \<noteq> first_kton_index then
         (case py_get bs i of Inl e \<Rightarrow> Inl e | Inr b_i \<Rightarrow>
         (case py_get bs first_kton_index of Inl e \<Rightarrow> Inl e | Inr b_f \<Rightarrow>
            Inr (M\<lparr>rws := (rws M)[i := map2 (\<lambda>x y. x - rws M ! i ! kton_column * y)
                                         (rws M ! i) (rws M ! first_kton_index)]\<rparr>,
                 bs[i := b_i - rws M ! i ! kton_column * b_f])))
       else Inr (M, bs))"

text \<open>
  What a pass of \<open>eliminate_kton_equalities\<close> writes: \<open>solution[var_to_del]\<close> and the
  three entries of \<open>change_dictionary['eliminate_kton_equalities']\<close>. \<open>s1\<close> is the state
  after the deletions. \<open>aliased\<close> says that \<open>change_dictionary['eliminate_kton_equalities']
  ['solutions']\<close> already is the object \<open>solution\<close> (every pass but the first of a
  call): then a variable named \<open>solutions\<close> has its journal entries written into
  \<open>solution\<close> itself.
\<close>

definition kton_journal ::
  "lp_state \<Rightarrow> (string \<times> jval) list \<Rightarrow> bool \<Rightarrow> string \<Rightarrow> real list \<Rightarrow> real
     \<Rightarrow> nat \<Rightarrow> nat \<Rightarrow> nat \<Rightarrow> error + (lp_state \<times> (string \<times> jval) list)" where
  "kton_journal s1 solution aliased var_to_del kton_row b_f oci_k ori_f ori_mate =
       (let solution1 = AList.update var_to_del
                          (JDict [(''lhs'', JReals kton_row),
                                  (''rhs'', JReal b_f), (''variables'', JNamesRef)])
                          solution
        in if aliased \<and> var_to_del = ''solutions'' then
             (case set_journal [''eliminate_kton_equalities'', ''solutions'']
                     (JDict (AList.update ''deleted_rows_indices'' (JNats [ori_f, ori_mate])
                              (AList.update ''deleted_variables_indices'' (JNat oci_k)
                                 solution1))) s1 of
                Inl e \<Rightarrow> Inl e
              | Inr s2 \<Rightarrow>
                  Inr (s2, AList.update ''deleted_rows_indices'' (JNats [ori_f, ori_mate])
                             (AList.update ''deleted_variables_indices'' (JNat oci_k)
                                solution1)))
           else
             (case set_journal [''eliminate_kton_equalities'', var_to_del,
                                ''deleted_variables_indices''] (JNat oci_k) s1 of
                Inl e \<Rightarrow> Inl e
              | Inr s2 \<Rightarrow>
             (case set_journal [''eliminate_kton_equalities'', var_to_del,
                                ''deleted_rows_indices''] (JNats [ori_f, ori_mate]) s2 of
                Inl e \<Rightarrow> Inl e
              | Inr s3 \<Rightarrow>
             (case set_journal [''eliminate_kton_equalities'', ''solutions'']
                     (JDict solution1) s3 of
                Inl e \<Rightarrow> Inl e
              | Inr s4 \<Rightarrow> Inr (s4, solution1)))))"

text \<open>
  One pass of \<open>eliminate_kton_equalities\<close> on the row \<open>first_kton_index\<close> with mate
  \<open>mate_opt\<close>: the substitution, the deletions, and then the journal.
\<close>

definition kton_pass ::
  "lp_state \<Rightarrow> (string \<times> jval) list \<Rightarrow> bool \<Rightarrow> nat \<Rightarrow> nat option
     \<Rightarrow> error + (lp_state \<times> (string \<times> jval) list)" where
  "kton_pass s solution aliased first_kton_index mate_opt =
     (case mate_opt of None \<Rightarrow> Inl TypeError | Some mate \<Rightarrow>
     (case py_get (original_row_index s) first_kton_index of Inl e \<Rightarrow> Inl e | Inr ori_f \<Rightarrow>
     (case py_get (original_row_index s) mate of Inl e \<Rightarrow> Inl e | Inr ori_mate \<Rightarrow>
     (case rev (nonzero (rws (self_A s) ! first_kton_index)) of
        [] \<Rightarrow> Inl IndexError
      | kton_column # _ \<Rightarrow>
     (case py_get (original_column_index s) kton_column of Inl e \<Rightarrow> Inl e | Inr oci_k \<Rightarrow>
     (case py_get (variable_names s) kton_column of Inl e \<Rightarrow> Inl e | Inr var_to_del \<Rightarrow>
     (case py_get (self_b s) first_kton_index of Inl e \<Rightarrow> Inl e | Inr b_f \<Rightarrow>
     (case for_loop (kton_eliminate_row first_kton_index kton_column)
             [0..<num_rows (self_A s)]
             ((self_A s)\<lparr>rws := (rws (self_A s))[first_kton_index :=
                  map (\<lambda>x. x / (rws (self_A s) ! first_kton_index ! kton_column))
                    (rws (self_A s) ! first_kton_index)]\<rparr>,
              (self_b s)[first_kton_index :=
                  b_f / (rws (self_A s) ! first_kton_index ! kton_column)]) of
        Inl e \<Rightarrow> Inl e
      | Inr (A1, b1) \<Rightarrow>
     (case py_get (self_c s) kton_column of Inl e \<Rightarrow> Inl e | Inr c_k \<Rightarrow>
     (case np_sub (self_c s) (map (\<lambda>a. c_k * a) (rws A1 ! first_kton_index)) of
        Inl e \<Rightarrow> Inl e
      | Inr c1 \<Rightarrow>
     (case delete_cols A1 [kton_column] of Inl e \<Rightarrow> Inl e | Inr A2 \<Rightarrow>
     (case py_del c1 kton_column of Inl e \<Rightarrow> Inl e | Inr c' \<Rightarrow>
     (case vec_np_delete (self_lb s) [kton_column] of Inl e \<Rightarrow> Inl e | Inr lb' \<Rightarrow>
     (case vec_np_delete (self_ub s) [kton_column] of Inl e \<Rightarrow> Inl e | Inr ub' \<Rightarrow>
     (case py_del (variable_names s) kton_column of Inl e \<Rightarrow> Inl e | Inr vn' \<Rightarrow>
     (case py_del (original_column_index s) kton_column of Inl e \<Rightarrow> Inl e | Inr oci' \<Rightarrow>
     (case delete_rows
             (A2\<lparr>rws := (rws A2)[first_kton_index := map uminus (rws A2 ! first_kton_index)]\<rparr>)
             [mate] of
        Inl e \<Rightarrow> Inl e
      | Inr A3 \<Rightarrow>
     (case py_del (b1[first_kton_index := - (b1 ! first_kton_index)]) mate of
        Inl e \<Rightarrow> Inl e
      | Inr b' \<Rightarrow>
     (case py_del (cons_senses s) mate of Inl e \<Rightarrow> Inl e | Inr cs' \<Rightarrow>
     (case py_del (original_row_index s) mate of Inl e \<Rightarrow> Inl e | Inr ori' \<Rightarrow>
       kton_journal
         (s\<lparr>self_A := A3, self_b := b', self_c := c',
            self_co := self_co s + c_k * (b1 ! first_kton_index),
            self_lb := lb', self_ub := ub', cons_senses := cs',
            variable_names := vn', original_row_index := ori',
            original_column_index := oci'\<rparr>)
         solution aliased var_to_del (rws (self_A s) ! first_kton_index) b_f
         oci_k ori_f ori_mate))))))))))))))))))))"

text \<open>
  One iteration of \<open>while found_kton:\<close>; the first component of the result is the value
  of \<open>found_kton\<close> at its end. \<open>k\<close> is \<open>self.k\<close>.
\<close>

definition kton_step ::
  "int \<Rightarrow> lp_state \<times> (string \<times> jval) list \<times> bool
     \<Rightarrow> error + (bool \<times> lp_state \<times> (string \<times> jval) list \<times> bool)" where
  "kton_step k st =
     (case st of (s, solution, aliased) \<Rightarrow>
     (case find_corresponding_negative_rows_with_indices (self_A s) (self_b s) of
        Inl e \<Rightarrow> Inl e
      | Inr (has_negative_counterpart, indices_list) \<Rightarrow>
     (case first_true (map2 (\<and>) (map (\<lambda>r. int (count_nonzero r) = k) (rws (self_A s)))
                          has_negative_counterpart) of
        None \<Rightarrow> Inr (False, s, solution, aliased)
      | Some first_kton_index \<Rightarrow>
     (case kton_pass s solution aliased first_kton_index (indices_list ! first_kton_index) of
        Inl e \<Rightarrow> Inl e
      | Inr (s', solution') \<Rightarrow> Inr (True, s', solution', True)))))"

section \<open>Singleton inequalities\<close>

text \<open>
  The accumulator holds \<open>to_delete_constraint\<close>, \<open>to_delete_variable\<close>,
  \<open>to_delete_constraint_original\<close>, \<open>to_delete_variable_original\<close> and the warnings.
\<close>

type_synonym deletions = "nat list \<times> nat list \<times> nat list \<times> nat list \<times> warning list"

definition singleton_inequalities_body ::
  "lp_state \<Rightarrow> bool list \<Rightarrow> nat \<Rightarrow> deletions \<Rightarrow> error + deletions" where
  "singleton_inequalities_body s valid_rows i acc =
     (case acc of (tdc, tdv, tdco, tdvo, ws) \<Rightarrow>
       if valid_rows ! i then
         (case nonzero (rws (self_A s) ! i) of [] \<Rightarrow> Inl IndexError | k_index # _ \<Rightarrow>
         (case py_get (self_b s) i of Inl e \<Rightarrow> Inl e | Inr b_i \<Rightarrow>
            if rws (self_A s) ! i ! k_index > 0 \<and> b_i < 0 then
              (case py_get (original_row_index s) i of Inl e \<Rightarrow> Inl e | Inr oi \<Rightarrow>
                 Inr (tdc @ [i], tdv, tdco @ [oi], tdvo, ws))
            else if rws (self_A s) ! i ! k_index < 0 \<and> b_i > 0 then
              Inr (tdc, tdv, tdco, tdvo, ws @ [Infeasible_singleton_inequality])
            else if rws (self_A s) ! i ! k_index > 0 \<and> b_i = 0 then
              Inr (tdc @ [i], tdv, tdco, tdvo, ws)
            else if rws (self_A s) ! i ! k_index < 0 \<and> b_i = 0 then
              (case py_get (original_row_index s) i of Inl e \<Rightarrow> Inl e | Inr oi \<Rightarrow>
              (case py_get (original_column_index s) k_index of Inl e \<Rightarrow> Inl e | Inr ok \<Rightarrow>
                 Inr (tdc @ [i], tdv @ [k_index], tdco @ [oi], tdvo @ [ok], ws)))
            else Inr acc))
       else Inr acc)"

text \<open>
  \<open>del self.c[index]; del self.lb[index]; del self.ub[index];
  del self.variable_names[index]; del self.original_column_index[index]\<close>
\<close>

definition singleton_inequalities_del :: "nat \<Rightarrow> lp_state \<Rightarrow> error + lp_state" where
  "singleton_inequalities_del j s =
     (case py_del (self_c s) j of Inl e \<Rightarrow> Inl e | Inr c' \<Rightarrow>
     (case vec_del (self_lb s) j of Inl e \<Rightarrow> Inl e | Inr lb' \<Rightarrow>
     (case vec_del (self_ub s) j of Inl e \<Rightarrow> Inl e | Inr ub' \<Rightarrow>
     (case py_del (variable_names s) j of Inl e \<Rightarrow> Inl e | Inr vn' \<Rightarrow>
     (case py_del (original_column_index s) j of Inl e \<Rightarrow> Inl e | Inr oci' \<Rightarrow>
        Inr (s\<lparr>self_c := c', self_lb := lb', self_ub := ub', variable_names := vn',
               original_column_index := oci'\<rparr>))))))"

definition eliminate_singleton_inequalities :: "lp_state \<Rightarrow> error + lp_state" where
  "eliminate_singleton_inequalities s =
     (case find_corresponding_negative_rows_with_indices (self_A s) (self_b s) of
        Inl e \<Rightarrow> Inl e
      | Inr (has_negative_counterpart, indices_list) \<Rightarrow>
     (case for_loop
             (singleton_inequalities_body s
                (map2 (\<and>) (map (\<lambda>r. count_nonzero r = 1) (rws (self_A s)))
                   (map Not has_negative_counterpart)))
             [0..<num_rows (self_A s)] ([], [], [], [], []) of
        Inl e \<Rightarrow> Inl e
      | Inr (tdc, tdv, tdco, tdvo, ws) \<Rightarrow>
     (case delete_rows (self_A s) tdc of Inl e \<Rightarrow> Inl e | Inr A1 \<Rightarrow>
     (case delete_cols A1 tdv of Inl e \<Rightarrow> Inl e | Inr A2 \<Rightarrow>
     (case for_loop del_row_entries (sorted_reverse tdc)
             (s\<lparr>self_A := A2, warnings := warnings s @ ws\<rparr>) of
        Inl e \<Rightarrow> Inl e
      | Inr s1 \<Rightarrow>
     (case for_loop singleton_inequalities_del (sorted_reverse tdv) s1 of
        Inl e \<Rightarrow> Inl e
      | Inr s2 \<Rightarrow>
     (case set_journal [''eliminate_singleton_inequalities'', ''deleted_variables_indices'']
             (JNats tdvo) s2 of
        Inl e \<Rightarrow> Inl e
      | Inr s3 \<Rightarrow>
     (case set_journal [''eliminate_singleton_inequalities'', ''deleted_rows_indices'']
             (JNats tdco) s3 of
        Inl e \<Rightarrow> Inl e
      | Inr s4 \<Rightarrow> Inr (append_operation ''Eliminate Singleton Inequalities'' s4)))))))))"

section \<open>Dual singleton inequalities\<close>

definition dual_singleton_body :: "lp_state \<Rightarrow> nat \<Rightarrow> deletions \<Rightarrow> error + deletions" where
  "dual_singleton_body s j acc =
     (case acc of (tdc, tdv, tdco, tdvo, ws) \<Rightarrow>
       if count_nonzero (column (self_A s) j) = 1 then
         (case nonzero (column (self_A s) j) of [] \<Rightarrow> Inl IndexError | r_index # _ \<Rightarrow>
         (case py_get (self_c s) j of Inl e \<Rightarrow> Inl e | Inr c_j \<Rightarrow>
            if column (self_A s) j ! r_index > 0 \<and> c_j < 0 then
              Inr (tdc, tdv, tdco, tdvo, ws @ [Infeasible_dual_singleton])
            else if column (self_A s) j ! r_index < 0 \<and> c_j > 0 then
              (case py_get (original_column_index s) j of Inl e \<Rightarrow> Inl e | Inr oj \<Rightarrow>
                 Inr (tdc, tdv @ [j], tdco, tdvo @ [oj], ws))
            else if column (self_A s) j ! r_index > 0 \<and> c_j = 0 then
              (case py_get (original_column_index s) j of Inl e \<Rightarrow> Inl e | Inr oj \<Rightarrow>
              (case py_get (original_row_index s) r_index of Inl e \<Rightarrow> Inl e | Inr orr \<Rightarrow>
                 Inr (tdc @ [r_index], tdv @ [j], tdco @ [orr], tdvo @ [oj], ws)))
            else if column (self_A s) j ! r_index < 0 \<and> c_j = 0 then
              (case py_get (original_column_index s) j of Inl e \<Rightarrow> Inl e | Inr oj \<Rightarrow>
                 Inr (tdc, tdv @ [j], tdco, tdvo @ [oj], ws))
            else Inr acc))
       else Inr acc)"

text \<open>
  \<open>del self.c[index]; del self.variable_names[index];
  del self.original_column_index[index]\<close>
\<close>

definition del_column_entries :: "nat \<Rightarrow> lp_state \<Rightarrow> error + lp_state" where
  "del_column_entries j s =
     (case py_del (self_c s) j of Inl e \<Rightarrow> Inl e | Inr c' \<Rightarrow>
     (case py_del (variable_names s) j of Inl e \<Rightarrow> Inl e | Inr vn' \<Rightarrow>
     (case py_del (original_column_index s) j of Inl e \<Rightarrow> Inl e | Inr oci' \<Rightarrow>
        Inr (s\<lparr>self_c := c', variable_names := vn', original_column_index := oci'\<rparr>))))"

text \<open>\<open>self.lb = np.delete(self.lb, idxs); self.ub = np.delete(self.ub, idxs)\<close>\<close>

definition delete_bounds :: "nat list \<Rightarrow> lp_state \<Rightarrow> error + lp_state" where
  "delete_bounds idxs s =
     (case vec_np_delete (self_lb s) idxs of Inl e \<Rightarrow> Inl e | Inr lb' \<Rightarrow>
     (case vec_np_delete (self_ub s) idxs of Inl e \<Rightarrow> Inl e | Inr ub' \<Rightarrow>
        Inr (s\<lparr>self_lb := lb', self_ub := ub'\<rparr>)))"

definition eliminate_dual_singleton_inequalities :: "lp_state \<Rightarrow> error + lp_state" where
  "eliminate_dual_singleton_inequalities s =
     (case for_loop (dual_singleton_body s) [0..<ncols (self_A s)] ([], [], [], [], []) of
        Inl e \<Rightarrow> Inl e
      | Inr (tdc, tdv, tdco, tdvo, ws) \<Rightarrow>
     (case delete_rows (self_A s) tdc of Inl e \<Rightarrow> Inl e | Inr A1 \<Rightarrow>
     (case delete_cols A1 tdv of Inl e \<Rightarrow> Inl e | Inr A2 \<Rightarrow>
     (case for_loop del_row_entries (sorted_reverse tdc)
             (s\<lparr>self_A := A2, warnings := warnings s @ ws\<rparr>) of
        Inl e \<Rightarrow> Inl e
      | Inr s1 \<Rightarrow>
     (case for_loop del_column_entries (sorted_reverse tdv) s1 of
        Inl e \<Rightarrow> Inl e
      | Inr s2 \<Rightarrow>
     (case delete_bounds tdv s2 of Inl e \<Rightarrow> Inl e | Inr s3 \<Rightarrow>
     (case set_journal [''eliminate_dual_singleton_inequalities'',
                        ''deleted_variables_indices''] (JNats tdvo) s3 of
        Inl e \<Rightarrow> Inl e
      | Inr s4 \<Rightarrow>
     (case set_journal [''eliminate_dual_singleton_inequalities'', ''deleted_rows_indices'']
             (JNats tdco) s4 of
        Inl e \<Rightarrow> Inl e
      | Inr s5 \<Rightarrow>
          Inr (append_operation ''Eliminate Dual Singleton Inequalities'' s5)))))))))"

section \<open>Redundant columns\<close>

text \<open>The inner loop \<open>for index in non_zero_variables: if index not in to_delete_variable\<close>.\<close>

definition redundant_columns_variable ::
  "lp_state \<Rightarrow> nat \<Rightarrow> nat list \<times> nat list \<Rightarrow> error + (nat list \<times> nat list)" where
  "redundant_columns_variable s j acc =
     (case acc of (tdv, tdvo) \<Rightarrow>
       if j \<notin> set tdv then
         (case py_get (original_column_index s) j of Inl e \<Rightarrow> Inl e | Inr oj \<Rightarrow>
            Inr (tdv @ [j], tdvo @ [oj]))
       else Inr acc)"

definition redundant_columns_body ::
  "lp_state \<Rightarrow> bool list \<Rightarrow> nat \<Rightarrow> nat list \<times> nat list \<times> nat list \<times> nat list
     \<Rightarrow> error + (nat list \<times> nat list \<times> nat list \<times> nat list)" where
  "redundant_columns_body s combined_condition i acc =
     (case acc of (tdc, tdv, tdco, tdvo) \<Rightarrow>
       if combined_condition ! i then
         (case (if i \<notin> set tdc
                then (case py_get (original_row_index s) i of Inl e \<Rightarrow> Inl e
                      | Inr oi \<Rightarrow> Inr (tdc @ [i], tdco @ [oi]))
                else Inr (tdc, tdco)) of
            Inl e \<Rightarrow> Inl e
          | Inr (tdc', tdco') \<Rightarrow>
         (case for_loop (redundant_columns_variable s) (nonzero (rws (self_A s) ! i))
                 (tdv, tdvo) of
            Inl e \<Rightarrow> Inl e
          | Inr (tdv', tdvo') \<Rightarrow> Inr (tdc', tdv', tdco', tdvo')))
       else Inr acc)"

definition eliminate_redundant_columns :: "lp_state \<Rightarrow> error + lp_state" where
  "eliminate_redundant_columns s =
     (case find_corresponding_negative_rows_with_indices (self_A s) (self_b s) of
        Inl e \<Rightarrow> Inl e
      | Inr (has_negative_counterpart, indices_list) \<Rightarrow>
     (case for_loop
             (redundant_columns_body s
                (map (\<lambda>i. self_b s ! i = 0 \<and> has_negative_counterpart ! i \<and>
                          (list_all (\<lambda>x. x \<ge> 0) (rws (self_A s) ! i) \<or>
                           list_all (\<lambda>x. x \<le> 0) (rws (self_A s) ! i)))
                   [0..<num_rows (self_A s)]))
             [0..<num_rows (self_A s)] ([], [], [], []) of
        Inl e \<Rightarrow> Inl e
      | Inr (tdc, tdv, tdco, tdvo) \<Rightarrow>
     (case delete_rows (self_A s) tdc of Inl e \<Rightarrow> Inl e | Inr A1 \<Rightarrow>
     (case delete_cols A1 tdv of Inl e \<Rightarrow> Inl e | Inr A2 \<Rightarrow>
     (case for_loop del_row_entries (sorted_reverse tdc) (s\<lparr>self_A := A2\<rparr>) of
        Inl e \<Rightarrow> Inl e
      | Inr s1 \<Rightarrow>
     (case delete_bounds tdv s1 of Inl e \<Rightarrow> Inl e | Inr s2 \<Rightarrow>
     (case for_loop del_column_entries (sorted_reverse tdv) s2 of
        Inl e \<Rightarrow> Inl e
      | Inr s3 \<Rightarrow>
     (case set_journal [''eliminate_redundant_columns'', ''deleted_variables_indices'']
             (JNats tdvo) s3 of
        Inl e \<Rightarrow> Inl e
      | Inr s4 \<Rightarrow>
     (case set_journal [''eliminate_redundant_columns'', ''deleted_rows_indices'']
             (JNats tdco) s4 of
        Inl e \<Rightarrow> Inl e
      | Inr s5 \<Rightarrow> Inr (append_operation ''Eliminate Redundant Columns'' s5))))))))))"

section \<open>Row activities and implied bounds\<close>

text \<open>
  The inner loop of \<open>get_row_activities\<close> over the columns of row \<open>r\<close>; the
  accumulator holds \<open>support\<close>, \<open>min_activity\<close> and \<open>max_activity\<close>.
\<close>

definition row_activity_body ::
  "lp_state \<Rightarrow> real list \<Rightarrow> nat \<Rightarrow> nat list \<times> real \<times> real
     \<Rightarrow> error + (nat list \<times> real \<times> real)" where
  "row_activity_body s r j acc =
     (case acc of (support, min_activity, max_activity) \<Rightarrow>
     (case py_get (elems (self_lb s)) j of Inl e \<Rightarrow> Inl e | Inr l_j \<Rightarrow>
     (case py_get (elems (self_ub s)) j of Inl e \<Rightarrow> Inl e | Inr u_j \<Rightarrow>
        if r ! j \<noteq> 0 then
          (if r ! j > 0
           then Inr (support @ [j], min_activity + r ! j * l_j, max_activity + r ! j * u_j)
           else Inr (support @ [j], min_activity + r ! j * u_j, max_activity + r ! j * l_j))
        else Inr acc)))"

definition get_row_activities_body ::
  "lp_state \<Rightarrow> nat \<Rightarrow> nat list list \<times> real list \<times> real list
     \<Rightarrow> error + (nat list list \<times> real list \<times> real list)" where
  "get_row_activities_body s i acc =
     (case acc of (SUPP_list, INF_list, SUP_list) \<Rightarrow>
     (case for_loop (row_activity_body s (rws (self_A s) ! i)) [0..<ncols (self_A s)]
             ([], 0, 0) of
        Inl e \<Rightarrow> Inl e
      | Inr (support, min_activity, max_activity) \<Rightarrow>
          Inr (SUPP_list @ [support], INF_list @ [min_activity], SUP_list @ [max_activity])))"

definition get_row_activities ::
  "lp_state \<Rightarrow> error + (nat list list \<times> real list \<times> real list)" where
  "get_row_activities s =
     for_loop (get_row_activities_body s) [0..<num_rows (self_A s)] ([], [], [])"

text \<open>
  The loop body of \<open>eliminate_implied_bounds\<close>: three independent \<open>if\<close> statements.
  The accumulator holds \<open>to_delete_constraint\<close>, \<open>to_delete_constraint_original\<close> and
  the warnings.
\<close>

definition implied_bounds_body ::
  "lp_state \<Rightarrow> real \<Rightarrow> real \<Rightarrow> real list \<Rightarrow> real list \<Rightarrow> nat
     \<Rightarrow> nat list \<times> nat list \<times> warning list \<Rightarrow> error + (nat list \<times> nat list \<times> warning list)" where
  "implied_bounds_body s feasibility_tolerance infinity INF_list SUP_list i acc =
     (case acc of (tdc, tdco, ws) \<Rightarrow>
     (case py_get (self_b s) i of Inl e \<Rightarrow> Inl e | Inr b_i \<Rightarrow>
     (case (if b_i \<ge> infinity
            then (case py_get (original_row_index s) i of Inl e \<Rightarrow> Inl e
                  | Inr oi \<Rightarrow> Inr (tdc @ [i], tdco @ [oi]))
            else Inr (tdc, tdco)) of
        Inl e \<Rightarrow> Inl e
      | Inr (tdc1, tdco1) \<Rightarrow>
     (case (if INF_list ! i > b_i + feasibility_tolerance
            then (case py_get (original_row_index s) i of Inl e \<Rightarrow> Inl e
                  | Inr oi \<Rightarrow> Inr (tdc1 @ [i], tdco1 @ [oi]))
            else Inr (tdc1, tdco1)) of
        Inl e \<Rightarrow> Inl e
      | Inr (tdc2, tdco2) \<Rightarrow>
          if SUP_list ! i < b_i + feasibility_tolerance
          then Inr (tdc2, tdco2, ws @ [Infeasible_implied_bound i])
          else Inr (tdc2, tdco2, ws)))))"

definition eliminate_implied_bounds_with :: "real \<Rightarrow> real \<Rightarrow> lp_state \<Rightarrow> error + lp_state" where
  "eliminate_implied_bounds_with feasibility_tolerance infinity s =
     (case get_row_activities s of Inl e \<Rightarrow> Inl e | Inr (SUPP_list, INF_list, SUP_list) \<Rightarrow>
     (case for_loop (implied_bounds_body s feasibility_tolerance infinity INF_list SUP_list)
             [0..<num_rows (self_A s)] ([], [], []) of
        Inl e \<Rightarrow> Inl e
      | Inr (tdc, tdco, ws) \<Rightarrow>
     (case delete_rows (self_A s) tdc of Inl e \<Rightarrow> Inl e | Inr A' \<Rightarrow>
     (case for_loop del_row_entries (sorted_reverse tdc)
             (s\<lparr>self_A := A', warnings := warnings s @ ws\<rparr>) of
        Inl e \<Rightarrow> Inl e
      | Inr s1 \<Rightarrow>
     (case set_journal [''eliminate_implied_bounds'', ''deleted_rows_indices'']
             (JNats tdco) s1 of
        Inl e \<Rightarrow> Inl e
      | Inr s2 \<Rightarrow> Inr (append_operation ''Eliminate Implied Bounds'' s2))))))"

text \<open>The defaults \<open>feasibility_tolerance=1e-6, infinity=1e30\<close>, as the orchestrator calls it.\<close>

definition eliminate_implied_bounds :: "lp_state \<Rightarrow> error + lp_state" where
  "eliminate_implied_bounds = eliminate_implied_bounds_with (1 / 10 ^ 6) (10 ^ 30)"

section \<open>Rules that call the absent helpers\<close>

text \<open>
  \<open>linear_dependency\<close> and \<open>normalize_features\<close> are imported from \<open>utils_functions\<close>,
  which is not part of the sources at hand; the rules take them as parameters. Of the
  three values \<open>normalize_features\<close> returns only the first, the normalised matrix, is
  used.
\<close>

record utils_functions =
  linear_dependency :: "matrix \<Rightarrow> real list \<Rightarrow> error + (nat list list \<times> bool list)"
  normalize_features :: "matrix \<Rightarrow> real list \<Rightarrow> error + matrix"

text \<open>The innermost loop of \<open>eliminate_redundant_rows\<close>, over \<open>list_of_dependencies\<close>.\<close>

definition redundant_rows_dependency ::
  "lp_state \<Rightarrow> nat option \<Rightarrow> nat \<Rightarrow> nat list \<times> nat list \<Rightarrow> error + (nat list \<times> nat list)" where
  "redundant_rows_dependency s negative_counterpart_index j acc =
     (case acc of (tdc, tdco) \<Rightarrow>
       if Some j \<noteq> negative_counterpart_index then
         (if j \<notin> set tdc then
            (case py_get (original_row_index s) j of Inl e \<Rightarrow> Inl e | Inr oj \<Rightarrow>
               Inr (tdc @ [j], tdco @ [oj]))
          else Inr acc)
       else Inr acc)"

definition redundant_rows_body ::
  "lp_state \<Rightarrow> nat list list \<Rightarrow> bool list \<Rightarrow> nat option list \<Rightarrow> nat
     \<Rightarrow> nat list \<times> nat list \<Rightarrow> error + (nat list \<times> nat list)" where
  "redundant_rows_body s dependent_rows has_linear_dependency indices_list i acc =
     (case acc of (tdc, tdco) \<Rightarrow>
       if i \<notin> set tdc then
         (case py_get has_linear_dependency i of Inl e \<Rightarrow> Inl e | Inr dep \<Rightarrow>
            if dep then
              (case py_get dependent_rows i of Inl e \<Rightarrow> Inl e | Inr list_of_dependencies \<Rightarrow>
                 for_loop (redundant_rows_dependency s (indices_list ! i))
                   list_of_dependencies (tdc, tdco))
            else Inr acc)
       else Inr acc)"

definition eliminate_redundant_rows ::
  "'u utils_functions_scheme \<Rightarrow> lp_state \<Rightarrow> error + lp_state" where
  "eliminate_redundant_rows u s =
     (case linear_dependency u (self_A s) (self_b s) of
        Inl e \<Rightarrow> Inl e
      | Inr (dependent_rows, has_linear_dependency) \<Rightarrow>
     (case find_corresponding_negative_rows_with_indices (self_A s) (self_b s) of
        Inl e \<Rightarrow> Inl e
      | Inr (has_negative_counterpart, indices_list) \<Rightarrow>
     (case for_loop (redundant_rows_body s dependent_rows has_linear_dependency indices_list)
             [0..<num_rows (self_A s)] ([], []) of
        Inl e \<Rightarrow> Inl e
      | Inr (tdc, tdco) \<Rightarrow>
     (case delete_rows (self_A s) tdc of Inl e \<Rightarrow> Inl e | Inr A' \<Rightarrow>
     (case for_loop del_row_entries (sorted_reverse tdc) (s\<lparr>self_A := A'\<rparr>) of
        Inl e \<Rightarrow> Inl e
      | Inr s1 \<Rightarrow>
     (case set_journal [''eliminate_redundant_rows'', ''deleted_rows_indices'']
             (JNats tdco) s1 of
        Inl e \<Rightarrow> Inl e
      | Inr s2 \<Rightarrow> Inr (append_operation ''Eliminate Redundant Rows'' s2)))))))"

text \<open>
  Modelled from the spec: \<open>matrix_sparsification\<close> is imported from \<open>utils_functions\<close>,
  which is not part of the sources at hand. The spec (4.13): in the normalised copy
  the entries with \<open>|a| < threshold\<close> are zeroed, and for every zeroed entry of the
  normalised copy the corresponding entry of the original \<open>A\<close> is zeroed. An entry of
  \<open>A\<close> with no counterpart in the normalised copy is kept.
\<close>

definition matrix_sparsification :: "real \<Rightarrow> matrix \<Rightarrow> matrix \<Rightarrow> matrix" where
  "matrix_sparsification threshold A_norm M =
     M\<lparr>rws := map (\<lambda>(i, r). map (\<lambda>(j, x).
                 if i < length (rws A_norm) \<and> j < length (rws A_norm ! i) \<and>
                    \<bar>rws A_norm ! i ! j\<bar> < threshold
                 then 0 else x) (enumerate 0 r)) (enumerate 0 (rws M))\<rparr>"

definition reduction_small_coefficients_with ::
  "real \<Rightarrow> 'u utils_functions_scheme \<Rightarrow> lp_state \<Rightarrow> error + lp_state" where
  "reduction_small_coefficients_with threshold u s =
     (case normalize_features u (self_A s) (self_b s) of
        Inl e \<Rightarrow> Inl e
      | Inr A_norm \<Rightarrow>
          Inr (append_operation ''reduction Small Coefficients''
                 (s\<lparr>self_A := matrix_sparsification threshold A_norm (self_A s)\<rparr>)))"

text \<open>The default \<open>threshold=5*10e-2\<close>, that is 0.5.\<close>

definition reduction_small_coefficients ::
  "'u utils_functions_scheme \<Rightarrow> lp_state \<Rightarrow> error + lp_state" where
  "reduction_small_coefficients = reduction_small_coefficients_with (5 * (10 * (1 / 10 ^ 2)))"

section \<open>The k-ton loop\<close>

text \<open>
  Every pass of the k-ton rule that finds a row ends with \<open>del self.b[mate]\<close>, so
  \<open>b\<close> gets shorter and the loop \<open>while found_kton:\<close> ends.
\<close>

lemma py_del_length: "py_del xs i = Inr ys \<Longrightarrow> Suc (length ys) = length xs"
  by (auto simp: py_del_def split: if_splits)

lemma set_journal_fields:
  "set_journal path v s = Inr s' \<Longrightarrow> \<exists>cd. s' = s\<lparr>change_dictionary := cd\<rparr>"
  by (auto simp: set_journal_def split: sum.splits)

lemma kton_eliminate_rows_length:
  "for_loop (kton_eliminate_row f kc) xs (M, bs) = Inr (M', bs') \<Longrightarrow> length bs' = length bs"
proof (induction xs arbitrary: M bs)
  case Nil
  then show ?case by simp
next
  case (Cons x xs)
  then show ?case
    by (auto simp: kton_eliminate_row_def split: sum.splits if_splits)
qed

lemma kton_pass_length:
  assumes "kton_pass s solution aliased f m = Inr (s', solution')"
  shows "Suc (length (self_b s')) = length (self_b s)"
  using assms
  unfolding kton_pass_def kton_journal_def Let_def
  by (auto split: option.splits sum.splits list.splits prod.splits if_splits
      dest!: py_del_length kton_eliminate_rows_length set_journal_fields)

lemma kton_step_decreases:
  "kton_step k st = Inr (True, st') \<Longrightarrow> length (self_b (fst st')) < length (self_b (fst st))"
  unfolding kton_step_def
  by (auto split: prod.splits sum.splits option.splits dest!: kton_pass_length)

function kton_loop ::
  "int \<Rightarrow> lp_state \<times> (string \<times> jval) list \<times> bool
     \<Rightarrow> error + (lp_state \<times> (string \<times> jval) list \<times> bool)" where
  "kton_loop k st =
     (case kton_step k st of
        Inl e \<Rightarrow> Inl e
      | Inr (found_kton, st') \<Rightarrow> if found_kton then kton_loop k st' else Inr st')"
  by pat_completeness auto
termination
  by (relation "measure (\<lambda>(k, st). length (self_b (fst st)))")
     (auto dest: kton_step_decreases)

declare kton_loop.simps [simp del]

definition eliminate_kton_equalities :: "int \<Rightarrow> lp_state \<Rightarrow> error + lp_state" where
  "eliminate_kton_equalities k s =
     (case kton_loop k (s, [], False) of
        Inl e \<Rightarrow> Inl e
      | Inr (s1, solution, aliased) \<Rightarrow> Inr (append_operation ''Eliminate Kton Equalities'' s1))"

section \<open>The orchestrator\<close>

text \<open>The flags and \<open>k\<close> given to the constructor of \<open>PresolveComillas\<close>.\<close>

record presolve_config =
  perform_eliminate_zero_rows :: bool
  perform_eliminate_zero_columns :: bool
  perform_eliminate_singleton_equalities :: bool
  perform_eliminate_kton_equalities :: bool
  self_k :: int
  perform_eliminate_singleton_inequalities :: bool
  perform_eliminate_dual_singleton_inequalities :: bool
  perform_eliminate_redundant_columns :: bool
  perform_eliminate_implied_bounds :: bool
  perform_eliminate_redundant_rows :: bool
  perform_reduction_small_coefficients :: bool

text \<open>
  What \<open>get_model_matrices(self.model)\<close> returns; the function itself is imported
  from \<open>utils_functions\<close> and its result is taken as the input of the engine.
\<close>

record model_matrices =
  model_A :: matrix
  model_b :: "real list"
  model_c :: "real list"
  model_co :: real
  model_lb :: pyvec
  model_ub :: pyvec
  model_of_sense :: objective_sense
  model_cons_senses :: "sense list"
  model_variable_names :: "string list"

text \<open>
  \<open>load_model_matrices\<close> on a freshly constructed object: the journal and the
  operation table are empty; \<open>None\<close> is \<open>self.model is None\<close>.
\<close>

definition load_model_matrices :: "model_matrices option \<Rightarrow> error + lp_state" where
  "load_model_matrices model =
     (case model of
        None \<Rightarrow> Inl ValueError
      | Some m \<Rightarrow>
          Inr \<lparr>self_A = model_A m, self_b = model_b m, self_c = model_c m,
               self_co = model_co m, self_lb = model_lb m, self_ub = model_ub m,
               of_sense = model_of_sense m, cons_senses = model_cons_senses m,
               variable_names = model_variable_names m,
               original_row_index = [0..<num_rows (model_A m)],
               original_column_index = [0..<ncols (model_A m)],
               change_dictionary = JDict [],
               operation_table = [(''Initial'', length (model_cons_senses m),
                                   length (model_variable_names m), nnz (model_A m))],
               warnings = []\<rparr>)"

text \<open>\<open>if flag: self.rule()\<close>\<close>

definition run_if :: "bool \<Rightarrow> (lp_state \<Rightarrow> error + lp_state) \<Rightarrow> lp_state \<Rightarrow> error + lp_state" where
  "run_if flag rule s = (if flag then rule s else Inr s)"

text \<open>
  The state of the object run_if \<open>orchestrator_presolve_operations\<close> reaches its
  \<open>return\<close>; \<open>None\<close> run_if it does not.
\<close>

definition orchestrator_state ::
  "'u utils_functions_scheme \<Rightarrow> 'p presolve_config_scheme \<Rightarrow> model_matrices option
     \<Rightarrow> (error + lp_state) option" where
  "orchestrator_state u cfg model =
     (case load_model_matrices model of Inl e \<Rightarrow> Some (Inl e) | Inr s0 \<Rightarrow>
     (case run_if (perform_reduction_small_coefficients cfg)
             (reduction_small_coefficients u) s0 of
        Inl e \<Rightarrow> Some (Inl e) | Inr s1 \<Rightarrow>
     (case run_if (perform_eliminate_implied_bounds cfg) eliminate_implied_bounds s1 of
        Inl e \<Rightarrow> Some (Inl e) | Inr s2 \<Rightarrow>
     (case run_if (perform_eliminate_redundant_rows cfg) (eliminate_redundant_rows u) s2 of
        Inl e \<Rightarrow> Some (Inl e) | Inr s3 \<Rightarrow>
     (case run_if (perform_eliminate_kton_equalities cfg)
             (eliminate_kton_equalities (self_k cfg)) s3 of
        Inl e \<Rightarrow> Some (Inl e) | Inr s4 \<Rightarrow>
     (case (if perform_eliminate_singleton_equalities cfg
            then eliminate_singleton_equalities s4 else Some (Inr s4)) of
        None \<Rightarrow> None | Some (Inl e) \<Rightarrow> Some (Inl e) | Some (Inr s5) \<Rightarrow>
     (case run_if (perform_eliminate_singleton_inequalities cfg)
             eliminate_singleton_inequalities s5 of
        Inl e \<Rightarrow> Some (Inl e) | Inr s6 \<Rightarrow>
     (case run_if (perform_eliminate_dual_singleton_inequalities cfg)
             eliminate_dual_singleton_inequalities s6 of
        Inl e \<Rightarrow> Some (Inl e) | Inr s7 \<Rightarrow>
     (case run_if (perform_eliminate_redundant_columns cfg) eliminate_redundant_columns s7 of
        Inl e \<Rightarrow> Some (Inl e) | Inr s8 \<Rightarrow>
     (case run_if (perform_eliminate_zero_rows cfg) eliminate_zero_rows s8 of
        Inl e \<Rightarrow> Some (Inl e) | Inr s9 \<Rightarrow>
     (case run_if (perform_eliminate_zero_columns cfg) eliminate_zero_columns s9 of
        Inl e \<Rightarrow> Some (Inl e) | Inr s10 \<Rightarrow> Some (Inr s10))))))))))))"

type_synonym presolve_result =
  "matrix \<times> real list \<times> real list \<times> pyvec \<times> pyvec \<times> objective_sense \<times> sense list \<times> real \<times>
   string list \<times> jval \<times> (string \<times> nat \<times> nat \<times> nat) list"

text \<open>
  \<open>return (self.A, self.b, self.c, self.lb, self.ub, self.of_sense, self.cons_senses,
  self.co, self.variable_names, self.change_dictionary, self.operation_table)\<close>
\<close>

definition returned :: "lp_state \<Rightarrow> presolve_result" where
  "returned s =
     (self_A s, self_b s, self_c s, self_lb s, self_ub s, of_sense s, cons_senses s,
      self_co s, variable_names s, change_dictionary s, operation_table s)"

definition orchestrator_presolve_operations ::
  "'u utils_functions_scheme \<Rightarrow> 'p presolve_config_scheme \<Rightarrow> model_matrices option
     \<Rightarrow> (error + presolve_result) option" where
  "orchestrator_presolve_operations u cfg model =
     map_option (map_sum id returned) (orchestrator_state u cfg model)"

section \<open>Concrete linear programs\<close>

text \<open>
  \<open>lp_model n rs b c lb ub\<close> is the result of the matrix extraction for an LP with
  \<open>n\<close> variables \<open>x0, x1, ...\<close>, rows \<open>rs\<close>, all senses \<open>\<le>\<close>, bounds given as
  Python lists and objective constant 0; \<open>loaded m\<close> is the state after
  \<open>load_model_matrices\<close>.
\<close>

definition lp_model ::
  "nat \<Rightarrow> real list list \<Rightarrow> real list \<Rightarrow> real list \<Rightarrow> real list \<Rightarrow> real list \<Rightarrow> model_matrices" where
  "lp_model n rs bs cs lbs ubs =
     \<lparr>model_A = \<lparr>ncols = n, rws = rs\<rparr>, model_b = bs, model_c = cs, model_co = 0,
      model_lb = PyList lbs, model_ub = PyList ubs, model_of_sense = Minimize,
      model_cons_senses = map (\<lambda>_. LE) bs,
      model_variable_names = map (\<lambda>i. ''x'' @ [char_of (48 + i)]) [0..<n]\<rparr>"

definition loaded :: "model_matrices \<Rightarrow> lp_state" where
  "loaded m =
     \<lparr>self_A = model_A m, self_b = model_b m, self_c = model_c m,
      self_co = model_co m, self_lb = model_lb m, self_ub = model_ub m,
      of_sense = model_of_sense m, cons_senses = model_cons_senses m,
      variable_names = model_variable_names m,
      original_row_index = [0..<num_rows (model_A m)],
      original_column_index = [0..<ncols (model_A m)],
      change_dictionary = JDict [],
      operation_table = [(''Initial'', length (model_cons_senses m),
                          length (model_variable_names m), nnz (model_A m))],
      warnings = []\<rparr>"

text \<open>The constructor's defaults: no rule enabled, \<open>k=5\<close>.\<close>

definition defaults :: presolve_config where
  "defaults =
     \<lparr>perform_eliminate_zero_rows = False, perform_eliminate_zero_columns = False,
      perform_eliminate_singleton_equalities = False,
      perform_eliminate_kton_equalities = False, self_k = 5,
      perform_eliminate_singleton_inequalities = False,
      perform_eliminate_dual_singleton_inequalities = False,
      perform_eliminate_redundant_columns = False,
      perform_eliminate_implied_bounds = False,
      perform_eliminate_redundant_rows = False,
      perform_reduction_small_coefficients = False\<rparr>"

text \<open>
  Stand-ins for the absent helpers in the examples, none of which enables the rules
  that call them: no row is reported dependent, and the normalised copy is the matrix.
\<close>

definition no_helpers :: utils_functions where
  "no_helpers =
     \<lparr>linear_dependency = (\<lambda>M bs. Inr (map (\<lambda>r. []) (rws M), map (\<lambda>r. False) (rws M))),
      normalize_features = (\<lambda>M bs. Inr M)\<rparr>"


text \<open>The dimensional invariants of the LP state (spec, 3).\<close>

definition dimensions_consistent :: "lp_state \<Rightarrow> bool" where
  "dimensions_consistent s =
     (wf_matrix (self_A s) \<and>
      length (self_b s) = num_rows (self_A s) \<and>
      length (cons_senses s) = num_rows (self_A s) \<and>
      length (original_row_index s) = num_rows (self_A s) \<and>
      length (self_c s) = ncols (self_A s) \<and>
      length (elems (self_lb s)) = ncols (self_A s) \<and>
      length (elems (self_ub s)) = ncols (self_A s) \<and>
      length (variable_names s) = ncols (self_A s) \<and>
      length (original_column_index s) = ncols (self_A s))"

definition negative_singleton :: lp_state where
  "negative_singleton = loaded (lp_model 1 [[1], [-1]] [-1, 1] [1] [0] [10])"

definition doubly_implied :: lp_state where
  "doubly_implied =
     loaded (lp_model 2 [[1, 0], [0, 1]] [10 ^ 30, 5] [1, 1] [2 * 10 ^ 30, 0] [3 * 10 ^ 30, 10])"

definition shared_singleton_column :: lp_state where
  "shared_singleton_column = loaded (lp_model 2 [[-1, 0], [-2, 0]] [0, 0] [1, 1] [0, 0] [10, 10])"

definition positive_singleton_zero_rhs :: lp_state where
  "positive_singleton_zero_rhs = loaded (lp_model 1 [[1]] [0] [1] [0] [10])"

section \<open>The orchestrator as the spec words it\<close>

text \<open>
  The spec (4.1) lists the ten rules in a fixed order and says that the orchestrator
  applies those that are enabled, in this order. \<open>apply_rules\<close> over
  \<open>filter (enabled cfg) fixed_order\<close> is that description; it is compared with
  \<open>orchestrator_state\<close>, which follows the source.
\<close>

datatype rule =
    Small_coefficients
  | Implied_bounds
  | Redundant_rows
  | Kton_equalities
  | Singleton_equalities
  | Singleton_inequalities
  | Dual_singleton_inequalities
  | Redundant_columns
  | Zero_rows
  | Zero_columns

definition fixed_order :: "rule list" where
  "fixed_order =
     [Small_coefficients, Implied_bounds, Redundant_rows, Kton_equalities,
      Singleton_equalities, Singleton_inequalities, Dual_singleton_inequalities,
      Redundant_columns, Zero_rows, Zero_columns]"

fun enabled :: "'p presolve_config_scheme \<Rightarrow> rule \<Rightarrow> bool" where
  "enabled cfg Small_coefficients = perform_reduction_small_coefficients cfg"
| "enabled cfg Implied_bounds = perform_eliminate_implied_bounds cfg"
| "enabled cfg Redundant_rows = perform_eliminate_redundant_rows cfg"
| "enabled cfg Kton_equalities = perform_eliminate_kton_equalities cfg"
| "enabled cfg Singleton_equalities = perform_eliminate_singleton_equalities cfg"
| "enabled cfg Singleton_inequalities = perform_eliminate_singleton_inequalities cfg"
| "enabled cfg Dual_singleton_inequalities = perform_eliminate_dual_singleton_inequalities cfg"
| "enabled cfg Redundant_columns = perform_eliminate_redundant_columns cfg"
| "enabled cfg Zero_rows = perform_eliminate_zero_rows cfg"
| "enabled cfg Zero_columns = perform_eliminate_zero_columns cfg"

text \<open>The label each rule appends to the operation table.\<close>

fun label_of :: "rule \<Rightarrow> string" where
  "label_of Small_coefficients = ''reduction Small Coefficients''"
| "label_of Implied_bounds = ''Eliminate Implied Bounds''"
| "label_of Redundant_rows = ''Eliminate Redundant Rows''"
| "label_of Kton_equalities = ''Eliminate Kton Equalities''"
| "label_of Singleton_equalities = ''Eliminate Singleton Equalities''"
| "label_of Singleton_inequalities = ''Eliminate Singleton Inequalities''"
| "label_of Dual_singleton_inequalities = ''Eliminate Dual Singleton Inequalities''"
| "label_of Redundant_columns = ''Eliminate Redundant Columns''"
| "label_of Zero_rows = ''Eliminate Zero Rows''"
| "label_of Zero_columns = ''Eliminate Zero Columns''"

fun apply_rule ::
  "'u utils_functions_scheme \<Rightarrow> 'p presolve_config_scheme \<Rightarrow> rule \<Rightarrow> lp_state
     \<Rightarrow> (error + lp_state) option" where
  "apply_rule u cfg Small_coefficients s = Some (reduction_small_coefficients u s)"
| "apply_rule u cfg Implied_bounds s = Some (eliminate_implied_bounds s)"
| "apply_rule u cfg Redundant_rows s = Some (eliminate_redundant_rows u s)"
| "apply_rule u cfg Kton_equalities s = Some (eliminate_kton_equalities (self_k cfg) s)"
| "apply_rule u cfg Singleton_equalities s = eliminate_singleton_equalities s"
| "apply_rule u cfg Singleton_inequalities s = Some (eliminate_singleton_inequalities s)"
| "apply_rule u cfg Dual_singleton_inequalities s =
     Some (eliminate_dual_singleton_inequalities s)"
| "apply_rule u cfg Redundant_columns s = Some (eliminate_redundant_columns s)"
| "apply_rule u cfg Zero_rows s = Some (eliminate_zero_rows s)"
| "apply_rule u cfg Zero_columns s = Some (eliminate_zero_columns s)"

fun apply_rules ::
  "'u utils_functions_scheme \<Rightarrow> 'p presolve_config_scheme \<Rightarrow> rule list \<Rightarrow> lp_state
     \<Rightarrow> (error + lp_state) option" where
  "apply_rules u cfg [] s = Some (Inr s)"
| "apply_rules u cfg (r # rs) s =
     (case apply_rule u cfg r s of
        None \<Rightarrow> None
      | Some (Inl e) \<Rightarrow> Some (Inl e)
      | Some (Inr s') \<Rightarrow> apply_rules u cfg rs s')"

section \<open>Properties of the operation table\<close>

text \<open>\<open>successive R xs\<close>: \<open>R\<close> holds between every entry of \<open>xs\<close> and the next one.\<close>

fun successive :: "('e \<Rightarrow> 'e \<Rightarrow> bool) \<Rightarrow> 'e list \<Rightarrow> bool" where
  "successive R (x # y # zs) = (R x y \<and> successive R (y # zs))"
| "successive R zs = True"

text \<open>
  From one entry \<open>(label, rows, cols, nnz)\<close> to the next: rows and columns do not
  increase, and nnz does not increase unless the next entry is the k-ton rule's.
\<close>

definition entry_shrinks ::
  "string \<times> nat \<times> nat \<times> nat \<Rightarrow> string \<times> nat \<times> nat \<times> nat \<Rightarrow> bool" where
  "entry_shrinks e1 e2 =
     (case e1 of (label1, rows1, cols1, nnz1) \<Rightarrow>
      case e2 of (label2, rows2, cols2, nnz2) \<Rightarrow>
        rows2 \<le> rows1 \<and> cols2 \<le> cols1 \<and>
        (label2 = ''Eliminate Kton Equalities'' \<or> nnz2 \<le> nnz1))"

text \<open>
  The same with the exception the spec words: nnz does not increase unless the next
  entry is the sparsification's.
\<close>

definition entry_shrinks_claimed ::
  "string \<times> nat \<times> nat \<times> nat \<Rightarrow> string \<times> nat \<times> nat \<times> nat \<Rightarrow> bool" where
  "entry_shrinks_claimed e1 e2 =
     (case e1 of (label1, rows1, cols1, nnz1) \<Rightarrow>
      case e2 of (label2, rows2, cols2, nnz2) \<Rightarrow>
        rows2 \<le> rows1 \<and> cols2 \<le> cols1 \<and>
        (label2 = ''reduction Small Coefficients'' \<or> nnz2 \<le> nnz1))"

text \<open>The last entry of the operation table describes the current state.\<close>

definition table_tracks :: "lp_state \<Rightarrow> bool" where
  "table_tracks s =
     (operation_table s \<noteq> [] \<and>
      snd (last (operation_table s)) =
        (length (cons_senses s), length (variable_names s), nnz (self_A s)))"

text \<open>
  What a rule does to the table and the lengths: \<open>step_recorded\<close> for a whole rule,
  \<open>entries_deleted\<close> for the loops that delete vector entries, \<open>reduced\<close> for one
  pass of an iterating rule.
\<close>

definition step_recorded :: "string \<Rightarrow> lp_state \<Rightarrow> lp_state \<Rightarrow> bool" where
  "step_recorded label s s' =
     (operation_table s' = operation_table s @
        [(label, length (cons_senses s'), length (variable_names s'), nnz (self_A s'))] \<and>
      length (cons_senses s') \<le> length (cons_senses s) \<and>
      length (variable_names s') \<le> length (variable_names s))"

definition entries_deleted :: "lp_state \<Rightarrow> lp_state \<Rightarrow> bool" where
  "entries_deleted s s' =
     (self_A s' = self_A s \<and> operation_table s' = operation_table s \<and>
      length (cons_senses s') \<le> length (cons_senses s) \<and>
      length (variable_names s') \<le> length (variable_names s))"

definition reduced :: "lp_state \<Rightarrow> lp_state \<Rightarrow> bool" where
  "reduced s s' =
     (operation_table s' = operation_table s \<and>
      length (cons_senses s') \<le> length (cons_senses s) \<and>
      length (variable_names s') \<le> length (variable_names s))"

definition reduced_nnz :: "lp_state \<Rightarrow> lp_state \<Rightarrow> bool" where
  "reduced_nnz s s' = (reduced s s' \<and> nnz (self_A s') \<le> nnz (self_A s))"

definition kton_fill_in :: model_matrices where
  "kton_fill_in =
     lp_model 5
       [[1, 1, 1, 1, 1], [-1, -1, -1, -1, -1], [0, 0, 0, 0, 1], [0, 0, 0, 0, 1], [0, 0, 0, 0, 1]]
       [4, -4, 5, 6, 7] [1, 1, 1, 1, 1] [0, 0, 0, 0, 0] [10, 10, 10, 10, 10]"

definition kton_scenario :: model_matrices where
  "kton_scenario =
     lp_model 3 [[1, 2, 0], [-1, -2, 0], [0, 1, 1]] [4, -4, 5] [1, 1, 1] [0, 0, 0] [10, 10, 10]"

text \<open>Every rule enabled, with \<open>k = 2\<close>.\<close>

definition all_rules :: presolve_config where
  "all_rules =
     \<lparr>perform_eliminate_zero_rows = True, perform_eliminate_zero_columns = True,
      perform_eliminate_singleton_equalities = True,
      perform_eliminate_kton_equalities = True, self_k = 2,
      perform_eliminate_singleton_inequalities = True,
      perform_eliminate_dual_singleton_inequalities = True,
      perform_eliminate_redundant_columns = True,
      perform_eliminate_implied_bounds = True,
      perform_eliminate_redundant_rows = True,
      perform_reduction_small_coefficients = True\<rparr>"

section \<open>The sense vector\<close>

text \<open>
  \<open>with_senses f s\<close> relabels every entry of \<open>cons_senses\<close> by \<open>f\<close>;
  \<open>without_senses s\<close> is everything of the state but the values of the senses (their
  number is kept).
\<close>

definition with_senses :: "(sense \<Rightarrow> sense) \<Rightarrow> lp_state \<Rightarrow> lp_state" where
  "with_senses f s = s\<lparr>cons_senses := map f (cons_senses s)\<rparr>"

definition without_senses ::
  "lp_state \<Rightarrow> matrix \<times> real list \<times> real list \<times> real \<times> pyvec \<times> pyvec \<times> objective_sense \<times> nat \<times>
     string list \<times> nat list \<times> nat list \<times> jval \<times> (string \<times> nat \<times> nat \<times> nat) list \<times>
     warning list" where
  "without_senses s =
     (self_A s, self_b s, self_c s, self_co s, self_lb s, self_ub s, of_sense s,
      length (cons_senses s), variable_names s, original_row_index s,
      original_column_index s, change_dictionary s, operation_table s, warnings s)"

section \<open>Zero rows and zero columns, described\<close>

text \<open>
  The journal of a run is a dictionary whose entries, one per rule, are dictionaries.
\<close>

fun is_dict :: "jval \<Rightarrow> bool" where
  "is_dict (JDict kvs) = True"
| "is_dict v = False"

definition journal_wf :: "jval \<Rightarrow> bool" where
  "journal_wf cd = (case cd of JDict kvs \<Rightarrow> list_all (\<lambda>p. is_dict (snd p)) kvs | _ \<Rightarrow> False)"

text \<open>
  Row \<open>i\<close> has only zero coefficients; the zero rows that are redundant (\<open>b[i] \<le> 0\<close>),
  those that are infeasible (\<open>b[i] > 0\<close>), and the rows that are not redundant zero
  rows.
\<close>

definition zero_row :: "lp_state \<Rightarrow> nat \<Rightarrow> bool" where
  "zero_row s i = list_all (\<lambda>x. x = 0) (rws (self_A s) ! i)"

definition redundant_zero_rows :: "lp_state \<Rightarrow> nat list" where
  "redundant_zero_rows s =
     filter (\<lambda>i. zero_row s i \<and> self_b s ! i \<le> 0) [0..<num_rows (self_A s)]"

definition infeasible_zero_rows :: "lp_state \<Rightarrow> nat list" where
  "infeasible_zero_rows s =
     filter (\<lambda>i. zero_row s i \<and> self_b s ! i > 0) [0..<num_rows (self_A s)]"

definition rows_after_zero_rows :: "lp_state \<Rightarrow> nat list" where
  "rows_after_zero_rows s =
     filter (\<lambda>i. \<not> (zero_row s i \<and> self_b s ! i \<le> 0)) [0..<num_rows (self_A s)]"

text \<open>
  Column \<open>j\<close> has only zero coefficients; the zero columns whose variable is fixed at
  zero (\<open>c[j] \<ge> 0\<close>), those that are unbounded (\<open>c[j] < 0\<close>), and the columns that are
  not fixed zero columns. \<open>zero_solution\<close> is the dictionary \<open>solution\<close> after
  \<open>solution[name] = 0\<close> for the columns \<open>js\<close>.
\<close>

definition zero_column :: "lp_state \<Rightarrow> nat \<Rightarrow> bool" where
  "zero_column s j = list_all (\<lambda>x. x = 0) (column (self_A s) j)"

definition fixed_zero_columns :: "lp_state \<Rightarrow> nat list" where
  "fixed_zero_columns s =
     filter (\<lambda>j. zero_column s j \<and> self_c s ! j \<ge> 0) [0..<ncols (self_A s)]"

definition unbounded_zero_columns :: "lp_state \<Rightarrow> nat list" where
  "unbounded_zero_columns s =
     filter (\<lambda>j. zero_column s j \<and> self_c s ! j < 0) [0..<ncols (self_A s)]"

definition columns_after_zero_columns :: "lp_state \<Rightarrow> nat list" where
  "columns_after_zero_columns s =
     filter (\<lambda>j. \<not> (zero_column s j \<and> self_c s ! j \<ge> 0)) [0..<ncols (self_A s)]"

definition zero_solution :: "lp_state \<Rightarrow> nat list \<Rightarrow> (string \<times> jval) list \<Rightarrow> (string \<times> jval) list" where
  "zero_solution s js solution =
     fold (\<lambda>j. AList.update (variable_names s ! j) (JReal 0)) js solution"

definition zero_row_infeasible :: lp_state where
  "zero_row_infeasible = loaded (lp_model 2 [[0, 0], [1, 1]] [3, 2] [1, 1] [0, 0] [10, 10])"

definition zero_rows_example :: lp_state where
  "zero_rows_example =
     loaded (lp_model 2 [[0, 0], [1, 1], [0, 0]] [3, 2, 0] [1, 1] [0, 0] [10, 10])"

definition zero_columns_example :: lp_state where
  "zero_columns_example =
     loaded (lp_model 3 [[0, 1, 0], [0, 1, 0]] [1, 1] [5, 2, -1] [0, 0, 0] [10, 10, 10])"

section \<open>Running the engine on its own output\<close>










section \<open>Singleton equalities: a negative value\<close>

lemma negative_singleton_step:
  "singleton_equalities_step (negative_singleton\<lparr>warnings := ws\<rparr>, []) =
     Inr (True, negative_singleton\<lparr>warnings := ws @ [Infeasible_negative_variable]\<rparr>, [])"
  by (simp add: singleton_equalities_step_def negative_singleton_def loaded_def lp_model_def
      find_corresponding_negative_rows_with_indices_def num_rows_def
      negative_counterparts_def first_true_def count_nonzero_def nonzero_def py_get_def warn_def
      upt_rec)

lemma negative_singleton_loop:
  assumes "singleton_equalities_loop st = Some y"
  shows "\<forall>ws. st \<noteq> (negative_singleton\<lparr>warnings := ws\<rparr>, [])"
proof (rule singleton_equalities_loop.raw_induct
    [where P = "\<lambda>st y. \<forall>ws. st \<noteq> (negative_singleton\<lparr>warnings := ws\<rparr>, [])", OF _ assms])
  fix loop :: "lp_state \<times> (string \<times> jval) list \<Rightarrow> (error + lp_state \<times> (string \<times> jval) list) option"
  fix st y
  assume IH: "\<And>x y. loop x = Some y \<Longrightarrow> \<forall>ws. x \<noteq> (negative_singleton\<lparr>warnings := ws\<rparr>, [])"
  assume step: "(case singleton_equalities_step st of Inl e \<Rightarrow> Some (Inl e)
      | Inr (found_singleton, st') \<Rightarrow>
          if found_singleton then loop st' else Some (Inr st')) = Some y"
  show "\<forall>ws. st \<noteq> (negative_singleton\<lparr>warnings := ws\<rparr>, [])"
  proof (intro allI notI)
    fix ws
    assume st: "st = (negative_singleton\<lparr>warnings := ws\<rparr>, [])"
    with step
    have "loop (negative_singleton\<lparr>warnings := ws @ [Infeasible_negative_variable]\<rparr>, []) = Some y"
      by (simp add: negative_singleton_step)
    from IH[OF this] show False by blast
  qed
qed

text \<open>
  C1 (the code departs from the claim). On \<open>A = [[1], [-1]]\<close>, \<open>b = [-1, 1]\<close> row 0 is
  a singleton with a negative counterpart and \<open>x_k = -1 < 0\<close>: the rule warns, leaves
  the state as it is with \<open>found_singleton = True\<close>, and finds the same row again.
  \<open>eliminate_singleton_equalities\<close> does not return, and neither does the
  orchestrator with this rule enabled.
\<close>

theorem singleton_equalities_negative_value_diverges:
  "dimensions_consistent negative_singleton \<and>
   eliminate_singleton_equalities negative_singleton = None \<and>
   orchestrator_state no_helpers (defaults\<lparr>perform_eliminate_singleton_equalities := True\<rparr>)
     (Some (lp_model 1 [[1], [-1]] [-1, 1] [1] [0] [10])) = None"
proof -
  have "negative_singleton = negative_singleton\<lparr>warnings := warnings negative_singleton\<rparr>"
    by simp
  then have "singleton_equalities_loop (negative_singleton, []) = None"
    using negative_singleton_loop by (metis not_None_eq)
  then have div: "eliminate_singleton_equalities negative_singleton = None"
    by (simp add: eliminate_singleton_equalities_def)
  have ld: "load_model_matrices (Some (lp_model 1 [[1], [-1]] [-1, 1] [1] [0] [10])) =
      Inr negative_singleton"
    by (simp add: load_model_matrices_def negative_singleton_def loaded_def)
  have dc: "dimensions_consistent negative_singleton"
    by (simp add: dimensions_consistent_def negative_singleton_def loaded_def lp_model_def
        wf_matrix_def num_rows_def)
  show ?thesis
    unfolding orchestrator_state_def ld
    by (simp add: dc div run_if_def defaults_def)
qed

section \<open>Deleting the same index twice\<close>

text \<open>
  C3 (the code departs from the claim). In \<open>doubly_implied\<close> row 0 has
  \<open>b[0] = 1e30 \<ge> infinity\<close> and \<open>INF[0] = 2e30 > b[0] + tolerance\<close>: both \<open>if\<close>
  statements of \<open>eliminate_implied_bounds\<close> append 0, \<open>np.delete\<close> removes row 0 of
  \<open>A\<close> once, and the \<open>del\<close> loop removes two entries of \<open>b\<close>, of the senses and of the
  row index. In \<open>shared_singleton_column\<close> two singleton rows with \<open>A[i,0] < 0\<close>,
  \<open>b[i] = 0\<close> name column 0 twice: \<open>A\<close> loses one column, \<open>c\<close>, the bounds, the names
  and the column index lose two entries.
\<close>

theorem double_deletion_breaks_dimensions:
  "dimensions_consistent doubly_implied \<and>
   map_sum id (\<lambda>s. (self_A s, self_b s, cons_senses s, original_row_index s,
                    dimensions_consistent s))
     (eliminate_implied_bounds doubly_implied) =
     Inr (\<lparr>ncols = 2, rws = [[0, 1]]\<rparr>, [], [], [], False) \<and>
   dimensions_consistent shared_singleton_column \<and>
   map_sum id (\<lambda>s. (self_A s, self_c s, self_lb s, self_ub s, variable_names s,
                    original_column_index s, dimensions_consistent s))
     (eliminate_singleton_inequalities shared_singleton_column) =
     Inr (\<lparr>ncols = 1, rws = []\<rparr>, [], PyList [], PyList [], [], [], False)"
  by code_simp

section \<open>Singleton inequalities: the journal of deleted rows\<close>

text \<open>
  C4 (the code departs from the claim). On \<open>A = [[1]]\<close>, \<open>b = [0]\<close> the row is a
  singleton inequality with \<open>A[0,0] > 0\<close> and \<open>b[0] = 0\<close>: it is deleted, and
  \<open>deleted_rows_indices\<close> stays empty.
\<close>

theorem singleton_inequality_deletion_not_journalled:
  "map_sum id
     (\<lambda>s. (rws (self_A s), self_b s, original_row_index s,
           jget [''eliminate_singleton_inequalities'', ''deleted_rows_indices'']
             (change_dictionary s)))
     (eliminate_singleton_inequalities positive_singleton_zero_rhs) =
     Inr ([], [], [], Some (JNats []))"
  by code_simp

section \<open>Deleting entries\<close>

lemma kept_enumerate:
  "map snd (filter (\<lambda>p. P (fst p)) (enumerate n xs)) =
   map (\<lambda>j. xs ! (j - n)) (filter P [n..<n + length xs])"
proof (induction xs arbitrary: n)
  case Nil
  then show ?case by simp
next
  case (Cons x xs)
  have "map (\<lambda>j. (x # xs) ! (j - n)) (filter P [Suc n..<Suc n + length xs]) =
        map (\<lambda>j. xs ! (j - Suc n)) (filter P [Suc n..<Suc n + length xs])"
  proof (rule map_cong[OF refl])
    fix j
    assume "j \<in> set (filter P [Suc n..<Suc n + length xs])"
    then have "Suc n \<le> j" by (simp del: upt_Suc)
    then have "j - n = Suc (j - Suc n)" by arith
    then show "(x # xs) ! (j - n) = xs ! (j - Suc n)" by simp
  qed
  with Cons[of "Suc n"] show ?case
    by (simp add: upt_conv_Cons del: upt_Suc)
qed

lemma keep_unlisted_nth:
  "keep_unlisted idxs xs = map ((!) xs) (filter (\<lambda>j. j \<notin> set idxs) [0..<length xs])"
  using kept_enumerate[of "\<lambda>j. j \<notin> set idxs" 0 xs] by (simp add: keep_unlisted_def)

lemma keep_unlisted_map: "keep_unlisted idxs (map f xs) = map f (keep_unlisted idxs xs)"
  by (simp add: keep_unlisted_nth) 

lemma keep_unlisted_length: "length (keep_unlisted idxs xs) \<le> length xs"
  by (simp add: keep_unlisted_def) (metis length_enumerate length_filter_le)

lemma kept_sum_le:
  fixes f :: "'a \<Rightarrow> nat"
  shows "sum_list (map f (map snd (filter Q (enumerate n xs)))) \<le> sum_list (map f xs)"
  by (induction xs arbitrary: n) (auto simp: le_SucI trans_le_add2)

lemma keep_unlisted_sum_le:
  fixes f :: "'a \<Rightarrow> nat"
  shows "sum_list (map f (keep_unlisted idxs xs)) \<le> sum_list (map f xs)"
  unfolding keep_unlisted_def by (rule kept_sum_le)

lemma kept_filter_le:
  "length (filter P (map snd (filter Q (enumerate n xs)))) \<le> length (filter P xs)"
  by (induction xs arbitrary: n) (auto simp: le_SucI)

lemma count_nonzero_keep_unlisted: "count_nonzero (keep_unlisted idxs r) \<le> count_nonzero r"
  unfolding keep_unlisted_def count_nonzero_def by (rule kept_filter_le)

lemma nnz_delete_rows: "delete_rows M idxs = Inr M' \<Longrightarrow> nnz M' \<le> nnz M"
  by (auto simp: delete_rows_def np_delete_def nnz_def keep_unlisted_sum_le split: if_splits)

lemma nnz_delete_cols: "delete_cols M idxs = Inr M' \<Longrightarrow> nnz M' \<le> nnz M"
  by (auto simp: delete_cols_def nnz_def comp_def count_nonzero_keep_unlisted
      intro!: sum_list_mono split: if_splits)

lemma for_loop_entries_deleted:
  assumes "for_loop f idxs s = Inr s'"
    and "\<And>i t t'. f i t = Inr t' \<Longrightarrow> entries_deleted t t'"
  shows "entries_deleted s s'"
  using assms(1)
proof (induction idxs arbitrary: s)
  case Nil
  then show ?case by (simp add: entries_deleted_def)
next
  case (Cons i idxs)
  from Cons.prems obtain s1 where s1: "f i s = Inr s1"
    and rest: "for_loop f idxs s1 = Inr s'"
    by (auto split: sum.splits)
  from assms(2)[OF s1] Cons.IH[OF rest] show ?case
    by (auto simp: entries_deleted_def)
qed

lemma del_row_entries_deleted: "del_row_entries i s = Inr s' \<Longrightarrow> entries_deleted s s'"
  by (auto simp: del_row_entries_def entries_deleted_def split: sum.splits dest!: py_del_length)

lemma zero_columns_del_deleted: "zero_columns_del i s = Inr s' \<Longrightarrow> entries_deleted s s'"
  by (auto simp: zero_columns_del_def entries_deleted_def split: sum.splits dest!: py_del_length)

lemma singleton_inequalities_del_deleted:
  "singleton_inequalities_del i s = Inr s' \<Longrightarrow> entries_deleted s s'"
  by (auto simp: singleton_inequalities_del_def entries_deleted_def split: sum.splits
      dest!: py_del_length)

lemma del_column_entries_deleted: "del_column_entries i s = Inr s' \<Longrightarrow> entries_deleted s s'"
  by (auto simp: del_column_entries_def entries_deleted_def split: sum.splits dest!: py_del_length)

lemma delete_bounds_deleted: "delete_bounds idxs s = Inr s' \<Longrightarrow> entries_deleted s s'"
  by (auto simp: delete_bounds_def entries_deleted_def split: sum.splits)

lemma set_journal_deleted: "set_journal path v s = Inr s' \<Longrightarrow> entries_deleted s s'"
  by (auto simp: set_journal_def entries_deleted_def split: sum.splits)

lemma del_row_entries_loop_deleted:
  "for_loop del_row_entries idxs s = Inr s' \<Longrightarrow> entries_deleted s s'"
  by (erule for_loop_entries_deleted) (rule del_row_entries_deleted)

lemma zero_columns_del_loop_deleted:
  "for_loop zero_columns_del idxs s = Inr s' \<Longrightarrow> entries_deleted s s'"
  by (erule for_loop_entries_deleted) (rule zero_columns_del_deleted)

lemma singleton_inequalities_del_loop_deleted:
  "for_loop singleton_inequalities_del idxs s = Inr s' \<Longrightarrow> entries_deleted s s'"
  by (erule for_loop_entries_deleted) (rule singleton_inequalities_del_deleted)

lemma del_column_entries_loop_deleted:
  "for_loop del_column_entries idxs s = Inr s' \<Longrightarrow> entries_deleted s s'"
  by (erule for_loop_entries_deleted) (rule del_column_entries_deleted)

lemmas loops_deleted =
  del_row_entries_loop_deleted zero_columns_del_loop_deleted
  singleton_inequalities_del_loop_deleted del_column_entries_loop_deleted
  delete_bounds_deleted set_journal_deleted

lemma eliminate_zero_rows_recorded:
  "eliminate_zero_rows s = Inr s' \<Longrightarrow> step_recorded ''Eliminate Zero Rows'' s s'"
  unfolding eliminate_zero_rows_def step_recorded_def
  by (auto split: sum.splits prod.splits dest!: loops_deleted
      simp: append_operation_def entries_deleted_def)

lemma eliminate_zero_rows_nnz:
  "eliminate_zero_rows s = Inr s' \<Longrightarrow> nnz (self_A s') \<le> nnz (self_A s)"
  unfolding eliminate_zero_rows_def
  by (auto split: sum.splits prod.splits dest!: loops_deleted nnz_delete_rows
      simp: append_operation_def entries_deleted_def)

lemma eliminate_zero_columns_recorded:
  "eliminate_zero_columns s = Inr s' \<Longrightarrow> step_recorded ''Eliminate Zero Columns'' s s'"
  unfolding eliminate_zero_columns_def step_recorded_def
  by (auto split: sum.splits prod.splits dest!: loops_deleted
      simp: append_operation_def entries_deleted_def)

lemma eliminate_zero_columns_nnz:
  "eliminate_zero_columns s = Inr s' \<Longrightarrow> nnz (self_A s') \<le> nnz (self_A s)"
  unfolding eliminate_zero_columns_def
  by (auto split: sum.splits prod.splits dest!: loops_deleted nnz_delete_cols
      simp: append_operation_def entries_deleted_def)

lemma eliminate_singleton_inequalities_recorded:
  "eliminate_singleton_inequalities s = Inr s' \<Longrightarrow>
   step_recorded ''Eliminate Singleton Inequalities'' s s'"
  unfolding eliminate_singleton_inequalities_def step_recorded_def
  by (auto split: sum.splits prod.splits dest!: loops_deleted
      simp: append_operation_def entries_deleted_def)

lemma eliminate_singleton_inequalities_nnz:
  "eliminate_singleton_inequalities s = Inr s' \<Longrightarrow> nnz (self_A s') \<le> nnz (self_A s)"
  unfolding eliminate_singleton_inequalities_def
  by (auto split: sum.splits prod.splits dest!: loops_deleted nnz_delete_cols nnz_delete_rows
      simp: append_operation_def entries_deleted_def)

lemma eliminate_dual_singleton_inequalities_recorded:
  "eliminate_dual_singleton_inequalities s = Inr s' \<Longrightarrow>
   step_recorded ''Eliminate Dual Singleton Inequalities'' s s'"
  unfolding eliminate_dual_singleton_inequalities_def step_recorded_def
  by (auto split: sum.splits prod.splits dest!: loops_deleted
      simp: append_operation_def entries_deleted_def)

lemma eliminate_dual_singleton_inequalities_nnz:
  "eliminate_dual_singleton_inequalities s = Inr s' \<Longrightarrow> nnz (self_A s') \<le> nnz (self_A s)"
  unfolding eliminate_dual_singleton_inequalities_def
  by (auto split: sum.splits prod.splits dest!: loops_deleted nnz_delete_cols nnz_delete_rows
      simp: append_operation_def entries_deleted_def)

lemma eliminate_redundant_columns_recorded:
  "eliminate_redundant_columns s = Inr s' \<Longrightarrow>
   step_recorded ''Eliminate Redundant Columns'' s s'"
  unfolding eliminate_redundant_columns_def step_recorded_def
  by (auto split: sum.splits prod.splits dest!: loops_deleted
      simp: append_operation_def entries_deleted_def)

lemma eliminate_redundant_columns_nnz:
  "eliminate_redundant_columns s = Inr s' \<Longrightarrow> nnz (self_A s') \<le> nnz (self_A s)"
  unfolding eliminate_redundant_columns_def
  by (auto split: sum.splits prod.splits dest!: loops_deleted nnz_delete_cols nnz_delete_rows
      simp: append_operation_def entries_deleted_def)

lemma eliminate_implied_bounds_recorded:
  "eliminate_implied_bounds s = Inr s' \<Longrightarrow> step_recorded ''Eliminate Implied Bounds'' s s'"
  unfolding eliminate_implied_bounds_def eliminate_implied_bounds_with_def step_recorded_def
  by (auto split: sum.splits prod.splits dest!: loops_deleted
      simp: append_operation_def entries_deleted_def)

lemma eliminate_implied_bounds_nnz:
  "eliminate_implied_bounds s = Inr s' \<Longrightarrow> nnz (self_A s') \<le> nnz (self_A s)"
  unfolding eliminate_implied_bounds_def eliminate_implied_bounds_with_def
  by (auto split: sum.splits prod.splits dest!: loops_deleted nnz_delete_rows
      simp: append_operation_def entries_deleted_def)

lemma eliminate_redundant_rows_recorded:
  "eliminate_redundant_rows u s = Inr s' \<Longrightarrow> step_recorded ''Eliminate Redundant Rows'' s s'"
  unfolding eliminate_redundant_rows_def step_recorded_def
  by (auto split: sum.splits prod.splits dest!: loops_deleted
      simp: append_operation_def entries_deleted_def)

lemma eliminate_redundant_rows_nnz:
  "eliminate_redundant_rows u s = Inr s' \<Longrightarrow> nnz (self_A s') \<le> nnz (self_A s)"
  unfolding eliminate_redundant_rows_def
  by (auto split: sum.splits prod.splits dest!: loops_deleted nnz_delete_rows
      simp: append_operation_def entries_deleted_def)

lemma count_nonzero_zeroed:
  "count_nonzero (map (\<lambda>(j, x). if Q j then 0 else x) (enumerate n r)) \<le> count_nonzero r"
  by (induction r arbitrary: n) (auto simp: count_nonzero_def le_SucI)

lemma sum_enumerate_le:
  fixes f :: "'a \<Rightarrow> nat"
  assumes "\<And>i x. f (g i x) \<le> f x"
  shows "sum_list (map f (map (\<lambda>(i, x). g i x) (enumerate n xs))) \<le> sum_list (map f xs)"
  by (induction xs arbitrary: n) (auto simp: assms add_le_mono)

lemma nnz_matrix_sparsification: "nnz (matrix_sparsification t N M) \<le> nnz M"
  unfolding nnz_def matrix_sparsification_def
  using sum_enumerate_le[of count_nonzero _ 0 "rws M", OF count_nonzero_zeroed]
  by simp

lemma reduction_small_coefficients_recorded:
  "reduction_small_coefficients u s = Inr s' \<Longrightarrow>
   step_recorded ''reduction Small Coefficients'' s s'"
  unfolding reduction_small_coefficients_def reduction_small_coefficients_with_def
    step_recorded_def
  by (auto split: sum.splits simp: append_operation_def)

lemma reduction_small_coefficients_nnz:
  "reduction_small_coefficients u s = Inr s' \<Longrightarrow> nnz (self_A s') \<le> nnz (self_A s)"
  unfolding reduction_small_coefficients_def reduction_small_coefficients_with_def
  by (auto split: sum.splits simp: append_operation_def nnz_matrix_sparsification)

lemma reduced_refl: "reduced s s"
  by (simp add: reduced_def)

lemma reduced_trans: "reduced s t \<Longrightarrow> reduced t v \<Longrightarrow> reduced s v"
  by (auto simp: reduced_def)

lemma kton_pass_reduced:
  assumes "kton_pass s solution aliased f m = Inr (s', solution')"
  shows "reduced s s'"
  using assms
  unfolding kton_pass_def kton_journal_def Let_def reduced_def
  by (auto split: option.splits sum.splits list.splits prod.splits if_splits
      dest!: py_del_length set_journal_fields)

lemma kton_step_reduced:
  "kton_step k st = Inr (found, st') \<Longrightarrow> reduced (fst st) (fst st')"
  unfolding kton_step_def
  by (auto split: prod.splits sum.splits option.splits dest!: kton_pass_reduced
      simp: reduced_refl)

lemma kton_loop_reduced: "kton_loop k st = Inr st' \<Longrightarrow> reduced (fst st) (fst st')"
proof (induction k st rule: kton_loop.induct)
  case (1 k st)
  show ?case
  proof (cases "kton_step k st")
    case (Inl e)
    with "1.prems" show ?thesis by (simp add: kton_loop.simps)
  next
    case (Inr r)
    obtain found st1 where r: "r = (found, st1)" by (cases r)
    show ?thesis
    proof (cases found)
      case True
      with Inr r "1.prems" have "kton_loop k st1 = Inr st'"
        by (simp add: kton_loop.simps[of k st])
      from "1.IH"[OF Inr r[symmetric] True this] kton_step_reduced[OF Inr[unfolded r]]
      show ?thesis by (rule reduced_trans[rotated])
    next
      case False
      with Inr r "1.prems" have "st' = st1" by (simp add: kton_loop.simps[of k st])
      with kton_step_reduced[OF Inr[unfolded r]] show ?thesis by simp
    qed
  qed
qed

lemma eliminate_kton_equalities_recorded:
  "eliminate_kton_equalities k s = Inr s' \<Longrightarrow> step_recorded ''Eliminate Kton Equalities'' s s'"
  unfolding eliminate_kton_equalities_def step_recorded_def
  by (auto split: sum.splits prod.splits dest!: kton_loop_reduced
      simp: append_operation_def reduced_def)

lemma fix_singleton_reduced:
  assumes "fix_singleton s solution i k_index x_k m = Inr (s', solution')"
  shows "reduced_nnz s s'"
  using assms
  unfolding fix_singleton_def reduced_nnz_def reduced_def
  by (auto split: option.splits sum.splits
      dest!: py_del_length set_journal_fields del_row_entries_loop_deleted
        nnz_delete_rows nnz_delete_cols
      simp: entries_deleted_def)

lemma singleton_equalities_step_reduced:
  "singleton_equalities_step st = Inr (found, st') \<Longrightarrow> reduced_nnz (fst st) (fst st')"
  unfolding singleton_equalities_step_def
  by (auto split: prod.splits sum.splits option.splits list.splits if_splits
      dest!: fix_singleton_reduced simp: reduced_nnz_def reduced_def warn_def)

lemma singleton_equalities_loop_reduced:
  assumes "singleton_equalities_loop st = Some y"
  shows "\<forall>st'. y = Inr st' \<longrightarrow> reduced_nnz (fst st) (fst st')"
proof (rule singleton_equalities_loop.raw_induct
    [where P = "\<lambda>st y. \<forall>st'. y = Inr st' \<longrightarrow> reduced_nnz (fst st) (fst st')", OF _ assms])
  fix loop :: "lp_state \<times> (string \<times> jval) list \<Rightarrow> (error + lp_state \<times> (string \<times> jval) list) option"
  fix st y
  assume IH: "\<And>x y. loop x = Some y \<Longrightarrow> \<forall>st'. y = Inr st' \<longrightarrow> reduced_nnz (fst x) (fst st')"
  assume step: "(case singleton_equalities_step st of Inl e \<Rightarrow> Some (Inl e)
      | Inr (found_singleton, st') \<Rightarrow>
          if found_singleton then loop st' else Some (Inr st')) = Some y"
  show "\<forall>st'. y = Inr st' \<longrightarrow> reduced_nnz (fst st) (fst st')"
  proof (intro allI impI)
    fix st'
    assume y: "y = Inr st'"
    show "reduced_nnz (fst st) (fst st')"
    proof (cases "singleton_equalities_step st")
      case (Inl e)
      with step y show ?thesis by simp
    next
      case (Inr r)
      obtain found st1 where r: "r = (found, st1)" by (cases r)
      note one = singleton_equalities_step_reduced[OF Inr[unfolded r]]
      show ?thesis
      proof (cases found)
        case True
        with step Inr r have "loop st1 = Some y" by simp
        from IH[OF this] y have "reduced_nnz (fst st1) (fst st')" by simp
        with one show ?thesis by (auto simp: reduced_nnz_def reduced_def)
      next
        case False
        with step Inr r y have "st' = st1" by simp
        with one show ?thesis by simp
      qed
    qed
  qed
qed

lemma eliminate_singleton_equalities_recorded:
  "eliminate_singleton_equalities s = Some (Inr s') \<Longrightarrow>
   step_recorded ''Eliminate Singleton Equalities'' s s'"
  unfolding eliminate_singleton_equalities_def step_recorded_def
  by (auto split: option.splits sum.splits prod.splits
      dest!: singleton_equalities_loop_reduced set_journal_fields
      simp: append_operation_def reduced_nnz_def reduced_def)

lemma eliminate_singleton_equalities_nnz:
  "eliminate_singleton_equalities s = Some (Inr s') \<Longrightarrow> nnz (self_A s') \<le> nnz (self_A s)"
  unfolding eliminate_singleton_equalities_def
  by (auto split: option.splits sum.splits prod.splits
      dest!: singleton_equalities_loop_reduced set_journal_fields
      simp: append_operation_def reduced_nnz_def reduced_def)

lemma apply_rules_gate_total:
  "apply_rule u cfg r s = Some x \<Longrightarrow>
   apply_rules u cfg (filter (enabled cfg) (r # rs)) s =
     (case run_if (enabled cfg r) (\<lambda>s. x) s of
        Inl e \<Rightarrow> Some (Inl e)
      | Inr s' \<Rightarrow> apply_rules u cfg (filter (enabled cfg) rs) s')"
  by (simp add: run_if_def)

lemma apply_rules_gate_singleton_equalities:
  "apply_rules u cfg (filter (enabled cfg) (Singleton_equalities # rs)) s =
     (case (if perform_eliminate_singleton_equalities cfg
            then eliminate_singleton_equalities s else Some (Inr s)) of
        None \<Rightarrow> None
      | Some (Inl e) \<Rightarrow> Some (Inl e)
      | Some (Inr s') \<Rightarrow> apply_rules u cfg (filter (enabled cfg) rs) s')"
  by simp

lemma run_if_const: "run_if flag (\<lambda>s. f s) s = run_if flag f s"
  by simp

lemma orchestrator_state_as_rules:
  "orchestrator_state u cfg model =
     (case load_model_matrices model of
        Inl e \<Rightarrow> Some (Inl e)
      | Inr s0 \<Rightarrow> apply_rules u cfg (filter (enabled cfg) fixed_order) s0)"
proof (cases "load_model_matrices model")
  case (Inl e)
  then show ?thesis by (simp add: orchestrator_state_def)
next
  case (Inr s0)
  have r: "run_if flag (\<lambda>s. f t) t = run_if flag f t" for flag f and t :: lp_state
    by (simp add: run_if_def)
  show ?thesis
    unfolding orchestrator_state_def fixed_order_def Inr sum.case
    apply (subst apply_rules_gate_total[OF apply_rule.simps(1)])
    apply (subst r, simp only: enabled.simps)
    apply (rule sum.case_cong[OF refl refl])
    apply (subst apply_rules_gate_total[OF apply_rule.simps(2)])
    apply (subst r, simp only: enabled.simps)
    apply (rule sum.case_cong[OF refl refl])
    apply (subst apply_rules_gate_total[OF apply_rule.simps(3)])
    apply (subst r, simp only: enabled.simps)
    apply (rule sum.case_cong[OF refl refl])
    apply (subst apply_rules_gate_total[OF apply_rule.simps(4)])
    apply (subst r, simp only: enabled.simps)
    apply (rule sum.case_cong[OF refl refl])
    apply (subst apply_rules_gate_singleton_equalities)
    apply (rule option.case_cong[OF refl refl])
    apply (rule sum.case_cong[OF refl refl])
    apply (subst apply_rules_gate_total[OF apply_rule.simps(6)])
    apply (subst r, simp only: enabled.simps)
    apply (rule sum.case_cong[OF refl refl])
    apply (subst apply_rules_gate_total[OF apply_rule.simps(7)])
    apply (subst r, simp only: enabled.simps)
    apply (rule sum.case_cong[OF refl refl])
    apply (subst apply_rules_gate_total[OF apply_rule.simps(8)])
    apply (subst r, simp only: enabled.simps)
    apply (rule sum.case_cong[OF refl refl])
    apply (subst apply_rules_gate_total[OF apply_rule.simps(9)])
    apply (subst r, simp only: enabled.simps)
    apply (rule sum.case_cong[OF refl refl])
    apply (subst apply_rules_gate_total[OF apply_rule.simps(10)])
    apply (subst r, simp only: enabled.simps)
    apply (rule sum.case_cong[OF refl refl])
    apply simp
    done
qed

lemma successive_snoc:
  "successive R (xs @ [y]) = (successive R xs \<and> (xs = [] \<or> R (last xs) y))"
  by (induction R xs rule: successive.induct) auto

lemma apply_rule_recorded:
  assumes "apply_rule u cfg r s = Some (Inr s')"
  shows "step_recorded (label_of r) s s' \<and>
         (r = Kton_equalities \<or> nnz (self_A s') \<le> nnz (self_A s))"
  using assms
  by (cases r)
    (auto dest: reduction_small_coefficients_recorded reduction_small_coefficients_nnz
      eliminate_implied_bounds_recorded eliminate_implied_bounds_nnz
      eliminate_redundant_rows_recorded eliminate_redundant_rows_nnz
      eliminate_kton_equalities_recorded
      eliminate_singleton_equalities_recorded eliminate_singleton_equalities_nnz
      eliminate_singleton_inequalities_recorded eliminate_singleton_inequalities_nnz
      eliminate_dual_singleton_inequalities_recorded eliminate_dual_singleton_inequalities_nnz
      eliminate_redundant_columns_recorded eliminate_redundant_columns_nnz
      eliminate_zero_rows_recorded eliminate_zero_rows_nnz
      eliminate_zero_columns_recorded eliminate_zero_columns_nnz)

lemma kton_label: "label_of r = ''Eliminate Kton Equalities'' \<longleftrightarrow> r = Kton_equalities"
  by (cases r) simp_all

lemma apply_rule_table:
  assumes "apply_rule u cfg r s = Some (Inr s')" "table_tracks s"
    "successive entry_shrinks (operation_table s)"
  shows "table_tracks s' \<and> successive entry_shrinks (operation_table s') \<and>
         map fst (operation_table s') = map fst (operation_table s) @ [label_of r]"
proof -
  from apply_rule_recorded[OF assms(1)]
  have rec: "step_recorded (label_of r) s s'"
    and nz: "r = Kton_equalities \<or> nnz (self_A s') \<le> nnz (self_A s)" by simp_all
  obtain l where l: "last (operation_table s) =
      (l, length (cons_senses s), length (variable_names s), nnz (self_A s))"
    using assms(2) by (cases "last (operation_table s)") (auto simp: table_tracks_def)
  have "entry_shrinks (last (operation_table s))
     (label_of r, length (cons_senses s'), length (variable_names s'), nnz (self_A s'))"
    using rec nz unfolding l entry_shrinks_def step_recorded_def
    by (auto simp: kton_label)
  with rec assms(2,3) show ?thesis
    by (auto simp: step_recorded_def table_tracks_def successive_snoc)
qed

lemma apply_rules_table:
  assumes "apply_rules u cfg rs s = Some (Inr s')" "table_tracks s"
    "successive entry_shrinks (operation_table s)"
  shows "table_tracks s' \<and> successive entry_shrinks (operation_table s') \<and>
         map fst (operation_table s') = map fst (operation_table s) @ map label_of rs"
  using assms
proof (induction rs arbitrary: s)
  case Nil
  then show ?case by simp
next
  case (Cons r rs)
  from Cons.prems(1) obtain s1 where s1: "apply_rule u cfg r s = Some (Inr s1)"
    and rest: "apply_rules u cfg rs s1 = Some (Inr s')"
    by (auto split: option.splits sum.splits)
  from apply_rule_table[OF s1 Cons.prems(2,3)] Cons.IH[OF rest] show ?case by simp
qed

lemma load_model_matrices_table:
  assumes "load_model_matrices model = Inr s0"
  shows "table_tracks s0" "successive entry_shrinks (operation_table s0)"
    "map fst (operation_table s0) = [''Initial'']"
  using assms
  by (auto simp: load_model_matrices_def table_tracks_def split: option.splits)

section \<open>The operation table\<close>

text \<open>
  C5, as stated, fails. With \<open>k = 5\<close> the rows 0 and 1 of \<open>kton_fill_in\<close> encode
  \<open>x0 + x1 + x2 + x3 + x4 = 4\<close>; eliminating the pivot \<open>x4\<close> from the three rows
  \<open>x4 \<le> b\<close> fills each of them with four nonzeros: the operation table goes from 13
  nonzeros to 16 across the entry of the k-ton rule.
\<close>

theorem kton_fill_in_increases_nnz:
  "map_option (map_sum id operation_table)
     (orchestrator_state no_helpers (defaults\<lparr>perform_eliminate_kton_equalities := True\<rparr>)
        (Some kton_fill_in)) =
     Some (Inr [(''Initial'', 5, 5, 13), (''Eliminate Kton Equalities'', 4, 4, 16)]) \<and>
   \<not> successive entry_shrinks_claimed
       [(''Initial'', 5, 5, 13), (''Eliminate Kton Equalities'', 4, 4, 16)]"
  by code_simp

text \<open>
  C5, amended. Whenever the orchestrator returns, across successive entries of the
  operation table the rows and the columns never increase, and nnz never increases
  except across an entry of the k-ton rule.
\<close>

theorem operation_table_monotone:
  assumes "orchestrator_state u cfg model = Some (Inr s)"
  shows "successive entry_shrinks (operation_table s)"
proof -
  from assms obtain s0 where s0: "load_model_matrices model = Inr s0"
    and run: "apply_rules u cfg (filter (enabled cfg) fixed_order) s0 = Some (Inr s)"
    by (auto simp: orchestrator_state_as_rules split: sum.splits)
  from apply_rules_table[OF run load_model_matrices_table(1,2)[OF s0]] show ?thesis by simp
qed

theorem operation_table_monotone_witness:
  "map_option (map_sum id operation_table)
     (orchestrator_state no_helpers all_rules (Some kton_scenario)) =
     Some (Inr [(''Initial'', 3, 3, 6), (''reduction Small Coefficients'', 3, 3, 6),
                (''Eliminate Implied Bounds'', 3, 3, 6), (''Eliminate Redundant Rows'', 3, 3, 6),
                (''Eliminate Kton Equalities'', 2, 2, 3),
                (''Eliminate Singleton Equalities'', 2, 2, 3),
                (''Eliminate Singleton Inequalities'', 2, 2, 3),
                (''Eliminate Dual Singleton Inequalities'', 2, 2, 3),
                (''Eliminate Redundant Columns'', 2, 2, 3), (''Eliminate Zero Rows'', 2, 2, 3),
                (''Eliminate Zero Columns'', 2, 2, 3)]) \<and>
   successive entry_shrinks
     [(''Initial'', 3, 3, 6), (''reduction Small Coefficients'', 3, 3, 6),
      (''Eliminate Implied Bounds'', 3, 3, 6), (''Eliminate Redundant Rows'', 3, 3, 6),
      (''Eliminate Kton Equalities'', 2, 2, 3),
      (''Eliminate Singleton Equalities'', 2, 2, 3),
      (''Eliminate Singleton Inequalities'', 2, 2, 3),
      (''Eliminate Dual Singleton Inequalities'', 2, 2, 3),
      (''Eliminate Redundant Columns'', 2, 2, 3), (''Eliminate Zero Rows'', 2, 2, 3),
      (''Eliminate Zero Columns'', 2, 2, 3)]"
proof -
  have ev: "map_option (map_sum id operation_table)
     (orchestrator_state no_helpers all_rules (Some kton_scenario)) =
     Some (Inr [(''Initial'', 3, 3, 6), (''reduction Small Coefficients'', 3, 3, 6),
                (''Eliminate Implied Bounds'', 3, 3, 6), (''Eliminate Redundant Rows'', 3, 3, 6),
                (''Eliminate Kton Equalities'', 2, 2, 3),
                (''Eliminate Singleton Equalities'', 2, 2, 3),
                (''Eliminate Singleton Inequalities'', 2, 2, 3),
                (''Eliminate Dual Singleton Inequalities'', 2, 2, 3),
                (''Eliminate Redundant Columns'', 2, 2, 3), (''Eliminate Zero Rows'', 2, 2, 3),
                (''Eliminate Zero Columns'', 2, 2, 3)])"
    by code_simp
  then obtain s where s: "orchestrator_state no_helpers all_rules (Some kton_scenario) = Some (Inr s)"
    and t: "operation_table s =
      [(''Initial'', 3, 3, 6), (''reduction Small Coefficients'', 3, 3, 6),
       (''Eliminate Implied Bounds'', 3, 3, 6), (''Eliminate Redundant Rows'', 3, 3, 6),
       (''Eliminate Kton Equalities'', 2, 2, 3),
       (''Eliminate Singleton Equalities'', 2, 2, 3),
       (''Eliminate Singleton Inequalities'', 2, 2, 3),
       (''Eliminate Dual Singleton Inequalities'', 2, 2, 3),
       (''Eliminate Redundant Columns'', 2, 2, 3), (''Eliminate Zero Rows'', 2, 2, 3),
       (''Eliminate Zero Columns'', 2, 2, 3)]"
    by (cases "orchestrator_state no_helpers all_rules (Some kton_scenario)")
      (auto simp: map_sum_def split: sum.splits)
  from operation_table_monotone[OF s] t ev show ?thesis by simp
qed

section \<open>The order of the rules\<close>

text \<open>
  C7. The orchestrator of the source is the fixed list of rules, filtered by the
  flags of the configuration and applied in order from the loaded state; when it
  returns, the labels of the operation table are \<open>Initial\<close> followed by the labels of
  the enabled rules in that order; and the tuple it returns is
  \<open>(A, b, c, lb, ub, of_sense, cons_senses, co, variable_names, change_journal,
  operation_table)\<close> of the final state.
\<close>

theorem orchestrator_fixed_order:
  "orchestrator_state u cfg model =
     (case load_model_matrices model of
        Inl e \<Rightarrow> Some (Inl e)
      | Inr s0 \<Rightarrow> apply_rules u cfg (filter (enabled cfg) fixed_order) s0) \<and>
   (\<forall>s. orchestrator_state u cfg model = Some (Inr s) \<longrightarrow>
      map fst (operation_table s) =
        ''Initial'' # map label_of (filter (enabled cfg) fixed_order)) \<and>
   orchestrator_presolve_operations u cfg model =
     map_option (map_sum id (\<lambda>s. (self_A s, self_b s, self_c s, self_lb s, self_ub s,
        of_sense s, cons_senses s, self_co s, variable_names s, change_dictionary s,
        operation_table s))) (orchestrator_state u cfg model)"
proof (intro conjI allI impI)
  show "orchestrator_state u cfg model =
     (case load_model_matrices model of
        Inl e \<Rightarrow> Some (Inl e)
      | Inr s0 \<Rightarrow> apply_rules u cfg (filter (enabled cfg) fixed_order) s0)"
    by (rule orchestrator_state_as_rules)
next
  fix s
  assume "orchestrator_state u cfg model = Some (Inr s)"
  then obtain s0 where s0: "load_model_matrices model = Inr s0"
    and run: "apply_rules u cfg (filter (enabled cfg) fixed_order) s0 = Some (Inr s)"
    by (auto simp: orchestrator_state_as_rules split: sum.splits)
  from apply_rules_table[OF run load_model_matrices_table(1,2)[OF s0]]
    load_model_matrices_table(3)[OF s0]
  show "map fst (operation_table s) =
        ''Initial'' # map label_of (filter (enabled cfg) fixed_order)" by simp
next
  show "orchestrator_presolve_operations u cfg model =
     map_option (map_sum id (\<lambda>s. (self_A s, self_b s, self_c s, self_lb s, self_ub s,
        of_sense s, cons_senses s, self_co s, variable_names s, change_dictionary s,
        operation_table s))) (orchestrator_state u cfg model)"
    by (simp add: orchestrator_presolve_operations_def returned_def[abs_def])
qed

theorem orchestrator_fixed_order_witness:
  "map_option (map_sum id (\<lambda>s. map fst (operation_table s)))
     (orchestrator_state no_helpers
        (defaults\<lparr>perform_eliminate_zero_columns := True,
                  perform_eliminate_kton_equalities := True, self_k := 2,
                  perform_eliminate_implied_bounds := True\<rparr>)
        (Some kton_scenario)) =
     Some (Inr [''Initial'', ''Eliminate Implied Bounds'', ''Eliminate Kton Equalities'',
                ''Eliminate Zero Columns''])"
proof -
  let ?cfg = "defaults\<lparr>perform_eliminate_zero_columns := True,
                  perform_eliminate_kton_equalities := True, self_k := 2,
                  perform_eliminate_implied_bounds := True\<rparr>"
  have "map_option (map_sum id (\<lambda>s. length (operation_table s)))
     (orchestrator_state no_helpers ?cfg (Some kton_scenario)) = Some (Inr 4)"
    by code_simp
  then obtain s where s: "orchestrator_state no_helpers ?cfg (Some kton_scenario) = Some (Inr s)"
    by (cases "orchestrator_state no_helpers ?cfg (Some kton_scenario)")
      (auto simp: map_sum_def split: sum.splits)
  from orchestrator_fixed_order[of no_helpers ?cfg "Some kton_scenario"] s
  have "map fst (operation_table s) =
      ''Initial'' # map label_of (filter (enabled ?cfg) fixed_order)"
    by blast
  then have "map fst (operation_table s) =
      [''Initial'', ''Eliminate Implied Bounds'', ''Eliminate Kton Equalities'',
       ''Eliminate Zero Columns'']"
    by (simp add: fixed_order_def defaults_def)
  with s show ?thesis by simp
qed

section \<open>The values of the senses are never read\<close>

lemma with_senses_fields [simp]:
  "self_A (with_senses f s) = self_A s"
  "self_b (with_senses f s) = self_b s"
  "self_c (with_senses f s) = self_c s"
  "self_co (with_senses f s) = self_co s"
  "self_lb (with_senses f s) = self_lb s"
  "self_ub (with_senses f s) = self_ub s"
  "of_sense (with_senses f s) = of_sense s"
  "cons_senses (with_senses f s) = map f (cons_senses s)"
  "variable_names (with_senses f s) = variable_names s"
  "original_row_index (with_senses f s) = original_row_index s"
  "original_column_index (with_senses f s) = original_column_index s"
  "change_dictionary (with_senses f s) = change_dictionary s"
  "operation_table (with_senses f s) = operation_table s"
  "warnings (with_senses f s) = warnings s"
  by (simp_all add: with_senses_def)

lemma with_senses_updates [simp]:
  "(with_senses f s)\<lparr>self_A := a\<rparr> = with_senses f (s\<lparr>self_A := a\<rparr>)"
  "(with_senses f s)\<lparr>self_b := b'\<rparr> = with_senses f (s\<lparr>self_b := b'\<rparr>)"
  "(with_senses f s)\<lparr>self_c := c'\<rparr> = with_senses f (s\<lparr>self_c := c'\<rparr>)"
  "(with_senses f s)\<lparr>self_co := co'\<rparr> = with_senses f (s\<lparr>self_co := co'\<rparr>)"
  "(with_senses f s)\<lparr>self_lb := l\<rparr> = with_senses f (s\<lparr>self_lb := l\<rparr>)"
  "(with_senses f s)\<lparr>self_ub := ub'\<rparr> = with_senses f (s\<lparr>self_ub := ub'\<rparr>)"
  "(with_senses f s)\<lparr>variable_names := vn\<rparr> = with_senses f (s\<lparr>variable_names := vn\<rparr>)"
  "(with_senses f s)\<lparr>original_row_index := ori\<rparr> = with_senses f (s\<lparr>original_row_index := ori\<rparr>)"
  "(with_senses f s)\<lparr>original_column_index := oci\<rparr> = with_senses f (s\<lparr>original_column_index := oci\<rparr>)"
  "(with_senses f s)\<lparr>change_dictionary := cd\<rparr> = with_senses f (s\<lparr>change_dictionary := cd\<rparr>)"
  "(with_senses f s)\<lparr>operation_table := ot\<rparr> = with_senses f (s\<lparr>operation_table := ot\<rparr>)"
  "(with_senses f s)\<lparr>warnings := ws\<rparr> = with_senses f (s\<lparr>warnings := ws\<rparr>)"
  "(with_senses f s)\<lparr>cons_senses := map f cs\<rparr> = with_senses f (s\<lparr>cons_senses := cs\<rparr>)"
  by (simp_all add: with_senses_def)

lemma py_del_map: "py_del (map f xs) i = map_sum id (map f) (py_del xs i)"
  by (simp add: py_del_def take_map drop_map)

lemma for_loop_natural:
  assumes "\<And>i t. g i (h t) = map_sum id h (g i t)"
  shows "for_loop g idxs (h s) = map_sum id h (for_loop g idxs s)"
  by (induction idxs arbitrary: s) (auto simp: assms split: sum.splits)

lemma del_row_entries_senses:
  "del_row_entries i (with_senses f s) = map_sum id (with_senses f) (del_row_entries i s)"
  by (auto simp: del_row_entries_def py_del_map split: sum.splits)

lemma del_row_entries_loop_senses [simp]:
  "for_loop del_row_entries idxs (with_senses f s) =
   map_sum id (with_senses f) (for_loop del_row_entries idxs s)"
  by (rule for_loop_natural) (rule del_row_entries_senses)

lemma set_journal_senses [simp]:
  "set_journal path v (with_senses f s) = map_sum id (with_senses f) (set_journal path v s)"
  by (auto simp: set_journal_def split: sum.splits)

lemma append_operation_senses [simp]:
  "append_operation label (with_senses f s) = with_senses f (append_operation label s)"
  by (simp add: append_operation_def)

lemma zero_rows_body_senses [simp]: "zero_rows_body (with_senses f s) = zero_rows_body s"
  by (intro ext) (auto simp: zero_rows_body_def split: prod.splits sum.splits)

lemma warn_senses [simp]: "warn w (with_senses f s) = with_senses f (warn w s)"
  by (simp add: warn_def)

lemma zero_columns_del_senses:
  "zero_columns_del i (with_senses f s) = map_sum id (with_senses f) (zero_columns_del i s)"
  by (auto simp: zero_columns_del_def split: sum.splits)

lemma singleton_inequalities_del_senses:
  "singleton_inequalities_del i (with_senses f s) =
   map_sum id (with_senses f) (singleton_inequalities_del i s)"
  by (auto simp: singleton_inequalities_del_def split: sum.splits)

lemma del_column_entries_senses:
  "del_column_entries i (with_senses f s) = map_sum id (with_senses f) (del_column_entries i s)"
  by (auto simp: del_column_entries_def split: sum.splits)

lemma column_loops_senses [simp]:
  "for_loop zero_columns_del idxs (with_senses f s) =
   map_sum id (with_senses f) (for_loop zero_columns_del idxs s)"
  "for_loop singleton_inequalities_del idxs (with_senses f s) =
   map_sum id (with_senses f) (for_loop singleton_inequalities_del idxs s)"
  "for_loop del_column_entries idxs (with_senses f s) =
   map_sum id (with_senses f) (for_loop del_column_entries idxs s)"
  by (rule for_loop_natural, rule zero_columns_del_senses singleton_inequalities_del_senses
      del_column_entries_senses)+

lemma delete_bounds_senses [simp]:
  "delete_bounds idxs (with_senses f s) = map_sum id (with_senses f) (delete_bounds idxs s)"
  by (auto simp: delete_bounds_def split: sum.splits)

lemma bodies_senses [simp]:
  "zero_columns_body (with_senses f s) = zero_columns_body s"
  "singleton_inequalities_body (with_senses f s) = singleton_inequalities_body s"
  "dual_singleton_body (with_senses f s) = dual_singleton_body s"
  "redundant_columns_variable (with_senses f s) = redundant_columns_variable s"
  "row_activity_body (with_senses f s) = row_activity_body s"
  "implied_bounds_body (with_senses f s) = implied_bounds_body s"
  "redundant_rows_dependency (with_senses f s) = redundant_rows_dependency s"
  by (intro ext,
      auto simp: zero_columns_body_def singleton_inequalities_body_def dual_singleton_body_def
        redundant_columns_variable_def row_activity_body_def implied_bounds_body_def
        redundant_rows_dependency_def
      split: prod.splits sum.splits list.splits)+

lemma bodies_senses2 [simp]:
  "redundant_columns_body (with_senses f s) = redundant_columns_body s"
  "get_row_activities_body (with_senses f s) = get_row_activities_body s"
  "redundant_rows_body (with_senses f s) = redundant_rows_body s"
  by (intro ext,
      auto simp: redundant_columns_body_def get_row_activities_body_def redundant_rows_body_def
      split: prod.splits sum.splits list.splits)+

lemma get_row_activities_senses [simp]:
  "get_row_activities (with_senses f s) = get_row_activities s"
  by (simp add: get_row_activities_def)

lemma eliminate_zero_rows_senses:
  "eliminate_zero_rows (with_senses f s) = map_sum id (with_senses f) (eliminate_zero_rows s)"
  unfolding eliminate_zero_rows_def
  by (auto split: sum.splits prod.splits)


lemma eliminate_zero_columns_senses:
  "eliminate_zero_columns (with_senses f s) =
   map_sum id (with_senses f) (eliminate_zero_columns s)"
  unfolding eliminate_zero_columns_def
  by (auto split: sum.splits prod.splits)

lemma eliminate_singleton_inequalities_senses:
  "eliminate_singleton_inequalities (with_senses f s) =
   map_sum id (with_senses f) (eliminate_singleton_inequalities s)"
  unfolding eliminate_singleton_inequalities_def
  by (auto split: sum.splits prod.splits)

lemma eliminate_dual_singleton_inequalities_senses:
  "eliminate_dual_singleton_inequalities (with_senses f s) =
   map_sum id (with_senses f) (eliminate_dual_singleton_inequalities s)"
  unfolding eliminate_dual_singleton_inequalities_def
  by (auto split: sum.splits prod.splits)

lemma eliminate_redundant_columns_senses:
  "eliminate_redundant_columns (with_senses f s) =
   map_sum id (with_senses f) (eliminate_redundant_columns s)"
  unfolding eliminate_redundant_columns_def
  by (auto split: sum.splits prod.splits)

lemma eliminate_implied_bounds_senses:
  "eliminate_implied_bounds (with_senses f s) =
   map_sum id (with_senses f) (eliminate_implied_bounds s)"
  unfolding eliminate_implied_bounds_def eliminate_implied_bounds_with_def
  by (auto split: sum.splits prod.splits)

lemma eliminate_redundant_rows_senses:
  "eliminate_redundant_rows u (with_senses f s) =
   map_sum id (with_senses f) (eliminate_redundant_rows u s)"
  unfolding eliminate_redundant_rows_def
  by (auto split: sum.splits prod.splits)

lemma reduction_small_coefficients_senses:
  "reduction_small_coefficients u (with_senses f s) =
   map_sum id (with_senses f) (reduction_small_coefficients u s)"
  unfolding reduction_small_coefficients_def reduction_small_coefficients_with_def
  by (auto split: sum.splits prod.splits)

lemma kton_pass_senses:
  "kton_pass (with_senses f s) solution aliased i m =
   map_sum id (apfst (with_senses f)) (kton_pass s solution aliased i m)"
  unfolding kton_pass_def kton_journal_def Let_def
  by (auto simp: py_del_map split: option.splits sum.splits list.splits prod.splits)

lemma fix_singleton_senses:
  "fix_singleton (with_senses f s) solution i k_index x_k m =
   map_sum id (apfst (with_senses f)) (fix_singleton s solution i k_index x_k m)"
  unfolding fix_singleton_def
  by (auto split: option.splits sum.splits list.splits prod.splits)


lemma kton_step_senses:
  "kton_step k (with_senses f s, solution, aliased) =
   map_sum id (\<lambda>(found, s', r). (found, with_senses f s', r)) (kton_step k (s, solution, aliased))"
  unfolding kton_step_def
  by (auto simp: kton_pass_senses split: option.splits sum.splits prod.splits)

lemma kton_loop_senses:
  "kton_loop k (with_senses f (fst st), snd st) =
   map_sum id (\<lambda>(s', r). (with_senses f s', r)) (kton_loop k st)"
proof (induction k st rule: kton_loop.induct)
  case (1 k st)
  obtain s solution aliased where st: "st = (s, solution, aliased)" by (cases st)
  show ?case
  proof (cases "kton_step k st")
    case (Inl e)
    then show ?thesis
      using kton_step_senses[of k f s solution aliased]
      by (simp add: st kton_loop.simps[of k "(s, solution, aliased)"]
          kton_loop.simps[of k "(with_senses f s, solution, aliased)"])
  next
    case (Inr r)
    obtain found st1 where r: "r = (found, st1)" by (cases r)
    obtain s1 r1 where st1: "st1 = (s1, r1)" by (cases st1)
    from Inr r st1 st
    have step: "kton_step k (with_senses f s, solution, aliased) =
        Inr (found, with_senses f s1, r1)"
      using kton_step_senses[of k f s solution aliased] by simp
    show ?thesis
    proof (cases found)
      case True
      from "1.IH"[OF Inr r[symmetric] True] st1
      have "kton_loop k (with_senses f s1, r1) =
          map_sum id (\<lambda>(s', r). (with_senses f s', r)) (kton_loop k st1)"
        by (simp only: fst_conv snd_conv)
      with True Inr r st step show ?thesis
        by (simp add: kton_loop.simps[of k "(s, solution, aliased)"]
            kton_loop.simps[of k "(with_senses f s, solution, aliased)"] id_def)
    next
      case False
      with Inr r st st1 step show ?thesis
        by (simp add: kton_loop.simps[of k "(s, solution, aliased)"]
            kton_loop.simps[of k "(with_senses f s, solution, aliased)"])
    qed
  qed
qed

lemma eliminate_kton_equalities_senses:
  "eliminate_kton_equalities k (with_senses f s) =
   map_sum id (with_senses f) (eliminate_kton_equalities k s)"
  unfolding eliminate_kton_equalities_def
  using kton_loop_senses[of k f "(s, [], False)"]
  by (auto split: sum.splits prod.splits)

lemma singleton_equalities_step_senses:
  "singleton_equalities_step (with_senses f s, solution) =
   map_sum id (\<lambda>(found, s', r). (found, with_senses f s', r))
     (singleton_equalities_step (s, solution))"
  unfolding singleton_equalities_step_def
  by (auto simp: fix_singleton_senses split: option.splits sum.splits prod.splits list.splits)

text \<open>If the loop returns on a state, it returns the relabelled result on the relabelled state.\<close>

lemma singleton_equalities_loop_senses_forward:
  assumes "singleton_equalities_loop st = Some y"
  shows "singleton_equalities_loop (with_senses f (fst st), snd st) =
         Some (map_sum id (\<lambda>(s', r). (with_senses f s', r)) y)"
proof (rule singleton_equalities_loop.raw_induct
    [where P = "\<lambda>st y. singleton_equalities_loop (with_senses f (fst st), snd st) =
         Some (map_sum id (\<lambda>(s', r). (with_senses f s', r)) y)", OF _ assms])
  fix loop :: "lp_state \<times> (string \<times> jval) list \<Rightarrow> (error + lp_state \<times> (string \<times> jval) list) option"
  fix st y
  assume IH: "\<And>x y. loop x = Some y \<Longrightarrow>
     singleton_equalities_loop (with_senses f (fst x), snd x) =
         Some (map_sum id (\<lambda>(s', r). (with_senses f s', r)) y)"
  assume step: "(case singleton_equalities_step st of Inl e \<Rightarrow> Some (Inl e)
      | Inr (found_singleton, st') \<Rightarrow>
          if found_singleton then loop st' else Some (Inr st')) = Some y"
  obtain s solution where st: "st = (s, solution)" by (cases st)
  show "singleton_equalities_loop (with_senses f (fst st), snd st) =
         Some (map_sum id (\<lambda>(s', r). (with_senses f s', r)) y)"
  proof (cases "singleton_equalities_step st")
    case (Inl e)
    with step st show ?thesis
      using singleton_equalities_step_senses[of f s solution]
      by (subst singleton_equalities_loop.simps) auto
  next
    case (Inr r)
    obtain found s1 r1 where r: "r = (found, s1, r1)" by (cases r)
    from Inr r st
    have step': "singleton_equalities_step (with_senses f s, solution) =
        Inr (found, with_senses f s1, r1)"
      using singleton_equalities_step_senses[of f s solution] by simp
    show ?thesis
    proof (cases found)
      case True
      with step Inr r have "loop (s1, r1) = Some y" by simp
      from IH[OF this] True step' st show ?thesis
        by (subst singleton_equalities_loop.simps) simp
    next
      case False
      with step Inr r have "y = Inr (s1, r1)" by simp
      with False step' st show ?thesis
        by (subst singleton_equalities_loop.simps) simp
    qed
  qed
qed

text \<open>If the loop returns on the relabelled state, it returns on the state.\<close>

lemma singleton_equalities_loop_senses_backward:
  assumes "singleton_equalities_loop st' = Some y"
  shows "\<forall>s solution. st' = (with_senses f s, solution) \<longrightarrow>
           singleton_equalities_loop (s, solution) \<noteq> None"
proof (rule singleton_equalities_loop.raw_induct
    [where P = "\<lambda>st' y. \<forall>s solution. st' = (with_senses f s, solution) \<longrightarrow>
           singleton_equalities_loop (s, solution) \<noteq> None", OF _ assms])
  fix loop :: "lp_state \<times> (string \<times> jval) list \<Rightarrow> (error + lp_state \<times> (string \<times> jval) list) option"
  fix st' y
  assume IH: "\<And>x y. loop x = Some y \<Longrightarrow>
     \<forall>s solution. x = (with_senses f s, solution) \<longrightarrow>
           singleton_equalities_loop (s, solution) \<noteq> None"
  assume step: "(case singleton_equalities_step st' of Inl e \<Rightarrow> Some (Inl e)
      | Inr (found_singleton, st1) \<Rightarrow>
          if found_singleton then loop st1 else Some (Inr st1)) = Some y"
  show "\<forall>s solution. st' = (with_senses f s, solution) \<longrightarrow>
           singleton_equalities_loop (s, solution) \<noteq> None"
  proof (intro allI impI)
    fix s solution
    assume st': "st' = (with_senses f s, solution)"
    show "singleton_equalities_loop (s, solution) \<noteq> None"
    proof (cases "singleton_equalities_step (s, solution)")
      case (Inl e)
      then show ?thesis by (subst singleton_equalities_loop.simps) simp
    next
      case (Inr r)
      obtain found s1 r1 where r: "r = (found, s1, r1)" by (cases r)
      from Inr r
      have step': "singleton_equalities_step (with_senses f s, solution) =
          Inr (found, with_senses f s1, r1)"
        using singleton_equalities_step_senses[of f s solution] by simp
      show ?thesis
      proof (cases found)
        case True
        with step step' st' have "loop (with_senses f s1, r1) = Some y" by simp
        from IH[OF this] have "singleton_equalities_loop (s1, r1) \<noteq> None" by blast
        with True Inr r show ?thesis by (subst singleton_equalities_loop.simps) simp
      next
        case False
        with Inr r show ?thesis by (subst singleton_equalities_loop.simps) simp
      qed
    qed
  qed
qed

lemma singleton_equalities_loop_senses:
  "singleton_equalities_loop (with_senses f s, solution) =
   map_option (map_sum id (\<lambda>(s', r). (with_senses f s', r)))
     (singleton_equalities_loop (s, solution))"
proof (cases "singleton_equalities_loop (s, solution)")
  case None
  have "singleton_equalities_loop (with_senses f s, solution) = None"
  proof (rule ccontr)
    assume "singleton_equalities_loop (with_senses f s, solution) \<noteq> None"
    then obtain y where "singleton_equalities_loop (with_senses f s, solution) = Some y"
      by blast
    from singleton_equalities_loop_senses_backward[OF this] None show False by blast
  qed
  with None show ?thesis by simp
next
  case (Some y)
  from singleton_equalities_loop_senses_forward[OF this, of f] Some show ?thesis by simp
qed

lemma eliminate_singleton_equalities_senses:
  "eliminate_singleton_equalities (with_senses f s) =
   map_option (map_sum id (with_senses f)) (eliminate_singleton_equalities s)"
  unfolding eliminate_singleton_equalities_def
  by (auto simp: singleton_equalities_loop_senses split: option.splits sum.splits prod.splits)

lemma apply_rule_senses:
  "apply_rule u cfg r (with_senses f s) =
   map_option (map_sum id (with_senses f)) (apply_rule u cfg r s)"
  by (cases r)
    (simp_all add: reduction_small_coefficients_senses eliminate_implied_bounds_senses
      eliminate_redundant_rows_senses eliminate_kton_equalities_senses
      eliminate_singleton_equalities_senses eliminate_singleton_inequalities_senses
      eliminate_dual_singleton_inequalities_senses eliminate_redundant_columns_senses
      eliminate_zero_rows_senses eliminate_zero_columns_senses)

lemma apply_rules_senses:
  "apply_rules u cfg rs (with_senses f s) =
   map_option (map_sum id (with_senses f)) (apply_rules u cfg rs s)"
  by (induction rs arbitrary: s) (auto simp: apply_rule_senses split: option.splits sum.splits)

lemma load_model_matrices_senses:
  "load_model_matrices (Some (m\<lparr>model_cons_senses := map f (model_cons_senses m)\<rparr>)) =
   map_sum id (with_senses f) (load_model_matrices (Some m))"
  by (simp add: load_model_matrices_def with_senses_def)

lemma orchestrator_state_senses:
  "orchestrator_state u cfg (Some (m\<lparr>model_cons_senses := map f (model_cons_senses m)\<rparr>)) =
   map_option (map_sum id (with_senses f)) (orchestrator_state u cfg (Some m))"
  unfolding orchestrator_state_as_rules load_model_matrices_senses
  by (auto simp: apply_rules_senses load_model_matrices_def)

lemma without_senses_with_senses [simp]: "without_senses (with_senses f s) = without_senses s"
  by (simp add: without_senses_def)

lemma senses_erased_eq:
  "length cs = length (cons_senses s) \<Longrightarrow>
   with_senses (\<lambda>x. LE) (s\<lparr>cons_senses := cs\<rparr>) = with_senses (\<lambda>x. LE) s"
  by (simp add: with_senses_def map_replicate_const)

lemma independent_of_senses:
  assumes nat: "\<And>t. run (with_senses (\<lambda>x. LE) t) =
                  map_option (map_sum id (with_senses (\<lambda>x. LE))) (run t)"
    and eq: "with_senses (\<lambda>x. LE) s1 = with_senses (\<lambda>x. LE) s2"
  shows "map_option (map_sum id without_senses) (run s1) =
         map_option (map_sum id without_senses) (run s2)"
proof -
  have "map_option (map_sum id without_senses) (run t) =
        map_option (map_sum id without_senses) (run (with_senses (\<lambda>x. LE) t))" for t
    by (simp add: nat option.map_comp sum.map_comp comp_def id_def)
  from this[of s1] this[of s2] eq show ?thesis by simp
qed

text \<open>
  C10. Two states that differ only in the entries of \<open>cons_senses\<close> (of the same
  length) give, under every rule and under the orchestrator, the same error, or the
  same non-return, or final states with the same \<open>A\<close>, \<open>b\<close>, \<open>c\<close>, \<open>co\<close>, \<open>lb\<close>, \<open>ub\<close>,
  variable names, original-index maps, change journal, operation table and warnings,
  and as many senses. Moreover relabelling the senses commutes with every rule: the
  rules only delete entries of the sense vector, in step with the rows.
\<close>

theorem results_independent_of_senses:
  "(length cs = length (cons_senses s) \<longrightarrow>
      map_option (map_sum id without_senses) (apply_rule u cfg r (s\<lparr>cons_senses := cs\<rparr>)) =
      map_option (map_sum id without_senses) (apply_rule u cfg r s)) \<and>
   (length cs' = length (model_cons_senses m) \<longrightarrow>
      map_option (map_sum id without_senses)
        (orchestrator_state u cfg (Some (m\<lparr>model_cons_senses := cs'\<rparr>))) =
      map_option (map_sum id without_senses) (orchestrator_state u cfg (Some m))) \<and>
   apply_rule u cfg r (with_senses f s) =
     map_option (map_sum id (with_senses f)) (apply_rule u cfg r s)"
proof (intro conjI impI)
  assume "length cs = length (cons_senses s)"
  then show "map_option (map_sum id without_senses)
       (apply_rule u cfg r (s\<lparr>cons_senses := cs\<rparr>)) =
      map_option (map_sum id without_senses) (apply_rule u cfg r s)"
    by (intro independent_of_senses apply_rule_senses senses_erased_eq)
next
  assume len: "length cs' = length (model_cons_senses m)"
  obtain s0 where s0: "load_model_matrices (Some m) = Inr s0"
    and cs0: "cons_senses s0 = model_cons_senses m"
    by (simp add: load_model_matrices_def)
  have s0': "load_model_matrices (Some (m\<lparr>model_cons_senses := cs'\<rparr>)) =
      Inr (s0\<lparr>cons_senses := cs'\<rparr>)"
    using s0 len by (auto simp: load_model_matrices_def)
  have "map_option (map_sum id without_senses)
          (apply_rules u cfg (filter (enabled cfg) fixed_order) (s0\<lparr>cons_senses := cs'\<rparr>)) =
        map_option (map_sum id without_senses)
          (apply_rules u cfg (filter (enabled cfg) fixed_order) s0)"
  proof (intro independent_of_senses apply_rules_senses senses_erased_eq)
    show "length cs' = length (cons_senses s0)" using len cs0 by simp
  qed
  then show "map_option (map_sum id without_senses)
        (orchestrator_state u cfg (Some (m\<lparr>model_cons_senses := cs'\<rparr>))) =
      map_option (map_sum id without_senses) (orchestrator_state u cfg (Some m))"
    by (simp add: orchestrator_state_as_rules s0 s0')
next
  show "apply_rule u cfg r (with_senses f s) =
     map_option (map_sum id (with_senses f)) (apply_rule u cfg r s)"
    by (rule apply_rule_senses)
qed

theorem results_independent_of_senses_witness:
  "length [GE, EQ, GE] = length (model_cons_senses kton_scenario) \<and>
   map_option (map_sum id without_senses)
     (orchestrator_state no_helpers all_rules
        (Some (kton_scenario\<lparr>model_cons_senses := [GE, EQ, GE]\<rparr>))) =
   map_option (map_sum id without_senses)
     (orchestrator_state no_helpers all_rules (Some kton_scenario)) \<and>
   map_option (map_sum id cons_senses)
     (orchestrator_state no_helpers all_rules
        (Some (kton_scenario\<lparr>model_cons_senses := [GE, EQ, GE]\<rparr>))) = Some (Inr [GE, GE])"
proof -
  have len: "length [GE, EQ, GE] = length (model_cons_senses kton_scenario)"
    by (simp add: kton_scenario_def lp_model_def)
  have run: "map_option (map_sum id cons_senses)
     (orchestrator_state no_helpers all_rules
        (Some (kton_scenario\<lparr>model_cons_senses := [GE, EQ, GE]\<rparr>))) = Some (Inr [GE, GE])"
    by code_simp
  from results_independent_of_senses
    [where cs' = "[GE, EQ, GE]" and m = kton_scenario and u = no_helpers and cfg = all_rules]
    len run
  show ?thesis by blast
qed

section \<open>Deleting a sorted list of indices\<close>

lemma kept_all:
  "(\<And>j. n \<le> j \<Longrightarrow> P j) \<Longrightarrow> map snd (filter (\<lambda>p. P (fst p)) (enumerate n xs)) = xs"
  by (induction xs arbitrary: n) auto

lemma kept_cong:
  "(\<And>j. n \<le> j \<Longrightarrow> j < n + length xs \<Longrightarrow> P j = Q j) \<Longrightarrow>
   filter (\<lambda>p. P (fst p)) (enumerate n xs) = filter (\<lambda>p. Q (fst p)) (enumerate n xs)"
  by (induction xs arbitrary: n) auto

lemma keep_unlisted_after_del:
  assumes "\<And>y. y \<in> set ys \<Longrightarrow> y < i" "i < length xs"
  shows "keep_unlisted ys (take i xs @ drop (Suc i) xs) = keep_unlisted (ys @ [i]) xs"
proof -
  have xs: "xs = take i xs @ xs ! i # drop (Suc i) xs"
    using assms(2) by (simp add: id_take_nth_drop)
  have len: "length (take i xs) = i" using assms(2) by simp
  have lt: "\<forall>y\<in>set ys. y < i" using assms(1) by blast
  have tail1: "map snd (filter (\<lambda>p. fst p \<notin> set ys) (enumerate i (drop (Suc i) xs))) =
      drop (Suc i) xs"
    using lt by (intro kept_all) auto
  have tail2: "map snd (filter (\<lambda>p. fst p \<notin> set (ys @ [i])) (enumerate (Suc i) (drop (Suc i) xs))) =
      drop (Suc i) xs"
    using lt by (intro kept_all) auto
  have front: "filter (\<lambda>p. fst p \<notin> set (ys @ [i])) (enumerate 0 (take i xs)) =
      filter (\<lambda>p. fst p \<notin> set ys) (enumerate 0 (take i xs))"
    using len by (intro kept_cong) auto
  have "keep_unlisted (ys @ [i]) xs =
      keep_unlisted (ys @ [i]) (take i xs @ xs ! i # drop (Suc i) xs)"
    using xs by simp
  also have "\<dots> = map snd (filter (\<lambda>p. fst p \<notin> set ys) (enumerate 0 (take i xs))) @
      drop (Suc i) xs"
    unfolding keep_unlisted_def enumerate_append_eq len
    using tail2 front by simp
  also have "\<dots> = keep_unlisted ys (take i xs @ drop (Suc i) xs)"
    unfolding keep_unlisted_def enumerate_append_eq len
    using tail1 by simp
  finally show ?thesis by simp
qed

lemma py_del_keep_unlisted:
  assumes "\<And>y. y \<in> set ys \<Longrightarrow> y < i" "i < length xs"
  shows "\<exists>zs. py_del xs i = Inr zs \<and> keep_unlisted ys zs = keep_unlisted (ys @ [i]) xs \<and>
              Suc (length zs) = length xs"
  using assms keep_unlisted_after_del[OF assms] by (simp add: py_del_def)

lemma keep_unlisted_Nil [simp]: "keep_unlisted [] xs = xs"
  by (simp add: keep_unlisted_def kept_all)

lemma del_row_entries_sorted:
  assumes "sorted idxs" "distinct idxs"
    "\<And>i. i \<in> set idxs \<Longrightarrow> i < length (self_b s) \<and> i < length (cons_senses s) \<and>
        i < length (original_row_index s)"
  shows "for_loop del_row_entries (rev idxs) s =
     Inr (s\<lparr>self_b := keep_unlisted idxs (self_b s),
            cons_senses := keep_unlisted idxs (cons_senses s),
            original_row_index := keep_unlisted idxs (original_row_index s)\<rparr>)"
  using assms
proof (induction idxs arbitrary: s rule: rev_induct)
  case Nil
  then show ?case by simp
next
  case (snoc i ys)
  have lt: "\<And>y. y \<in> set ys \<Longrightarrow> y < i"
    using snoc.prems(1,2) by (auto simp: sorted_append less_le)
  have i: "i < length (self_b s)" "i < length (cons_senses s)"
    "i < length (original_row_index s)" using snoc.prems(3) by auto
  from py_del_keep_unlisted[OF lt i(1)] obtain b1 where
    b1: "py_del (self_b s) i = Inr b1" "keep_unlisted ys b1 = keep_unlisted (ys @ [i]) (self_b s)"
    "Suc (length b1) = length (self_b s)" by blast
  from py_del_keep_unlisted[OF lt i(2)] obtain c1 where
    c1: "py_del (cons_senses s) i = Inr c1"
    "keep_unlisted ys c1 = keep_unlisted (ys @ [i]) (cons_senses s)"
    "Suc (length c1) = length (cons_senses s)" by blast
  from py_del_keep_unlisted[OF lt i(3)] obtain o1 where
    o1: "py_del (original_row_index s) i = Inr o1"
    "keep_unlisted ys o1 = keep_unlisted (ys @ [i]) (original_row_index s)"
    "Suc (length o1) = length (original_row_index s)" by blast
  let ?s1 = "s\<lparr>self_b := b1, cons_senses := c1, original_row_index := o1\<rparr>"
  have step: "del_row_entries i s = Inr ?s1"
    by (simp add: del_row_entries_def b1 c1 o1)
  have "for_loop del_row_entries (rev ys) ?s1 =
     Inr (?s1\<lparr>self_b := keep_unlisted ys (self_b ?s1),
            cons_senses := keep_unlisted ys (cons_senses ?s1),
            original_row_index := keep_unlisted ys (original_row_index ?s1)\<rparr>)"
  proof (rule snoc.IH)
    show "sorted ys" "distinct ys" using snoc.prems(1,2) by (auto simp: sorted_append)
    fix y assume "y \<in> set ys"
    with lt[of y] i b1(3) c1(3) o1(3)
    show "y < length (self_b ?s1) \<and> y < length (cons_senses ?s1) \<and>
        y < length (original_row_index ?s1)" by simp
  qed
  with step b1 c1 o1 show ?case by simp
qed

lemma sorted_reverse_sorted: "sorted idxs \<Longrightarrow> sorted_reverse idxs = rev idxs"
  by (simp add: sorted_reverse_def sort_key_id_if_sorted)

lemma keep_unlisted_filter:
  "keep_unlisted (filter P [0..<n]) xs =
   map ((!) xs) (filter (\<lambda>j. \<not> (j < n \<and> P j)) [0..<length xs])"
  by (simp add: keep_unlisted_nth)

lemma keep_unlisted_filter_same:
  "length xs = n \<Longrightarrow>
   keep_unlisted (filter P [0..<n]) xs = map ((!) xs) (filter (\<lambda>j. \<not> P j) [0..<n])"
  unfolding keep_unlisted_filter by (intro arg_cong[where f = "map ((!) xs)"] filter_cong) auto

lemma zero_rows_scan:
  assumes "\<And>i. i \<in> set xs \<Longrightarrow> i < length (self_b s) \<and> i < length (original_row_index s)"
  shows "for_loop (zero_rows_body s) xs (td, tdo, ws) =
     Inr (td @ filter (\<lambda>i. zero_row s i \<and> self_b s ! i \<le> 0) xs,
          tdo @ map ((!) (original_row_index s))
                  (filter (\<lambda>i. zero_row s i \<and> self_b s ! i \<le> 0) xs),
          ws @ replicate (length (filter (\<lambda>i. zero_row s i \<and> self_b s ! i > 0) xs))
                 Infeasible_zero_row)"
  using assms
proof (induction xs arbitrary: td tdo ws)
  case Nil
  then show ?case by simp
next
  case (Cons i xs)
  have i: "i < length (self_b s)" "i < length (original_row_index s)"
    using Cons.prems by auto
  have rest: "\<And>j. j \<in> set xs \<Longrightarrow> j < length (self_b s) \<and> j < length (original_row_index s)"
    using Cons.prems by auto
  show ?case
    using i Cons.IH[OF rest]
    by (auto simp: zero_rows_body_def py_get_def zero_row_def replicate_append_same)
qed

lemma set_alist_update: "set (AList.update k v al) \<subseteq> insert (k, v) (set al)"
  by (induction al) auto

lemma jset_two_levels:
  assumes "journal_wf cd"
  shows "\<exists>cd'. jset [r, key] v cd = Inr cd' \<and> journal_wf cd' \<and> jget [r, key] cd' = Some v \<and>
     (\<forall>r' key'. (r', key') \<noteq> (r, key) \<longrightarrow> jget [r', key'] cd' = jget [r', key'] cd)"
proof -
  from assms obtain kvs where cd: "cd = JDict kvs" and all: "list_all (\<lambda>p. is_dict (snd p)) kvs"
    by (cases cd) (auto simp: journal_wf_def)
  obtain inner where inner: "(case map_of kvs r of None \<Rightarrow> JDict [] | Some t \<Rightarrow> t) = JDict inner"
  proof (cases "map_of kvs r")
    case None
    then show ?thesis using that by simp
  next
    case (Some t)
    then have "(r, t) \<in> set kvs" by (rule map_of_SomeD)
    with all have "is_dict t" by (auto simp: list_all_iff)
    then obtain i where "t = JDict i" by (cases t) auto
    with Some that show ?thesis by simp
  qed
  let ?cd' = "JDict (AList.update r (JDict (AList.update key v inner)) kvs)"
  have set: "jset [r, key] v cd = Inr ?cd'"
    by (simp add: cd inner)
  have "set (AList.update r (JDict (AList.update key v inner)) kvs) \<subseteq>
      insert (r, JDict (AList.update key v inner)) (set kvs)"
    by (rule set_alist_update)
  then have wf: "journal_wf ?cd'"
    using all by (auto simp: journal_wf_def list_all_iff)
  have get: "jget [r, key] ?cd' = Some v"
    by (simp add: update_conv')
  have other: "jget [r', key'] ?cd' = jget [r', key'] cd" if "(r', key') \<noteq> (r, key)" for r' key'
  proof (cases "r' = r")
    case True
    with that have "key' \<noteq> key" by simp
    with True inner show ?thesis
      by (auto simp: cd update_conv' split: option.splits)
  next
    case False
    then show ?thesis by (simp add: cd update_conv')
  qed
  from set wf get other show ?thesis by blast
qed

lemma set_journal_two_levels:
  assumes "journal_wf (change_dictionary s)"
  shows "\<exists>cd'. set_journal [r, key] v s = Inr (s\<lparr>change_dictionary := cd'\<rparr>) \<and> journal_wf cd' \<and>
     jget [r, key] cd' = Some v \<and>
     (\<forall>r' key'. (r', key') \<noteq> (r, key) \<longrightarrow>
        jget [r', key'] cd' = jget [r', key'] (change_dictionary s))"
  using jset_two_levels[OF assms, of r key v] by (auto simp: set_journal_def)

lemma np_delete_in_range:
  "(\<And>i. i \<in> set idxs \<Longrightarrow> i < length xs) \<Longrightarrow> np_delete xs idxs = Inr (keep_unlisted idxs xs)"
  by (simp add: np_delete_def list_all_iff)

lemma eliminate_zero_rows_result:
  assumes dims: "dimensions_consistent s" and wf: "journal_wf (change_dictionary s)"
  shows "\<exists>cd'. eliminate_zero_rows s =
       Inr (append_operation ''Eliminate Zero Rows''
         (s\<lparr>self_A := (self_A s)\<lparr>rws := keep_unlisted (redundant_zero_rows s) (rws (self_A s))\<rparr>,
            warnings := warnings s @
              replicate (length (infeasible_zero_rows s)) Infeasible_zero_row,
            self_b := keep_unlisted (redundant_zero_rows s) (self_b s),
            cons_senses := keep_unlisted (redundant_zero_rows s) (cons_senses s),
            original_row_index := keep_unlisted (redundant_zero_rows s) (original_row_index s),
            change_dictionary := cd'\<rparr>)) \<and>
     journal_wf cd' \<and>
     jget [''eliminate_zero_rows'', ''deleted_rows_indices''] cd' =
       Some (JNats (map ((!) (original_row_index s)) (redundant_zero_rows s))) \<and>
     (\<forall>r' key'. (r', key') \<noteq> (''eliminate_zero_rows'', ''deleted_rows_indices'') \<longrightarrow>
        jget [r', key'] cd' = jget [r', key'] (change_dictionary s))"
proof -
  let ?m = "num_rows (self_A s)"
  let ?red = "redundant_zero_rows s"
  from dims have len: "length (self_b s) = ?m" "length (cons_senses s) = ?m"
    "length (original_row_index s) = ?m"
    by (simp_all add: dimensions_consistent_def)
  have scan: "for_loop (zero_rows_body s) [0..<?m] ([], [], []) =
      Inr (?red, map ((!) (original_row_index s)) ?red,
           replicate (length (infeasible_zero_rows s)) Infeasible_zero_row)"
    using zero_rows_scan[of "[0..<?m]" s "[]" "[]" "[]"] len
    by (simp add: redundant_zero_rows_def infeasible_zero_rows_def)
  have in_range: "\<And>i. i \<in> set ?red \<Longrightarrow> i < ?m"
    by (simp add: redundant_zero_rows_def)
  have del: "delete_rows (self_A s) ?red =
      Inr ((self_A s)\<lparr>rws := keep_unlisted ?red (rws (self_A s))\<rparr>)"
    using in_range by (simp add: delete_rows_def np_delete_in_range num_rows_def)
  have srt: "sorted ?red" "distinct ?red"
    by (simp_all add: redundant_zero_rows_def sorted_wrt_filter)
  let ?s0 = "s\<lparr>self_A := (self_A s)\<lparr>rws := keep_unlisted ?red (rws (self_A s))\<rparr>,
      warnings := warnings s @ replicate (length (infeasible_zero_rows s)) Infeasible_zero_row\<rparr>"
  have loop: "for_loop del_row_entries (sorted_reverse ?red) ?s0 =
      Inr (?s0\<lparr>self_b := keep_unlisted ?red (self_b ?s0),
            cons_senses := keep_unlisted ?red (cons_senses ?s0),
            original_row_index := keep_unlisted ?red (original_row_index ?s0)\<rparr>)"
    unfolding sorted_reverse_sorted[OF srt(1)]
    using in_range len by (intro del_row_entries_sorted srt) simp
  let ?s1 = "?s0\<lparr>self_b := keep_unlisted ?red (self_b s),
            cons_senses := keep_unlisted ?red (cons_senses s),
            original_row_index := keep_unlisted ?red (original_row_index s)\<rparr>"
  have "journal_wf (change_dictionary ?s1)" using wf by simp
  from set_journal_two_levels[OF this, of "''eliminate_zero_rows''" "''deleted_rows_indices''"
      "JNats (map ((!) (original_row_index s)) ?red)"]
  obtain cd' where cd': "set_journal [''eliminate_zero_rows'', ''deleted_rows_indices'']
        (JNats (map ((!) (original_row_index s)) ?red)) ?s1 =
        Inr (?s1\<lparr>change_dictionary := cd'\<rparr>)"
    "journal_wf cd'"
    "jget [''eliminate_zero_rows'', ''deleted_rows_indices''] cd' =
       Some (JNats (map ((!) (original_row_index s)) ?red))"
    "\<forall>r' key'. (r', key') \<noteq> (''eliminate_zero_rows'', ''deleted_rows_indices'') \<longrightarrow>
        jget [r', key'] cd' = jget [r', key'] (change_dictionary s)"
    by auto
  have "eliminate_zero_rows s =
      Inr (append_operation ''Eliminate Zero Rows'' (?s1\<lparr>change_dictionary := cd'\<rparr>))"
    using loop cd'(1) by (simp add: eliminate_zero_rows_def scan del)
  with cd'(2,3,4) show ?thesis by (intro exI[of _ cd']) simp
qed

lemma zero_columns_scan:
  assumes "\<And>j. j \<in> set xs \<Longrightarrow> j < length (self_c s) \<and> j < length (original_column_index s) \<and>
      j < length (variable_names s)"
  shows "for_loop (zero_columns_body s) xs (td, tdo, solution, ws) =
     Inr (td @ filter (\<lambda>j. zero_column s j \<and> self_c s ! j \<ge> 0) xs,
          tdo @ map ((!) (original_column_index s))
                  (filter (\<lambda>j. zero_column s j \<and> self_c s ! j \<ge> 0) xs),
          zero_solution s (filter (\<lambda>j. zero_column s j \<and> self_c s ! j \<ge> 0) xs) solution,
          ws @ replicate (length (filter (\<lambda>j. zero_column s j \<and> self_c s ! j < 0) xs))
                 Unbounded_zero_column)"
  using assms
proof (induction xs arbitrary: td tdo solution ws)
  case Nil
  then show ?case by (simp add: zero_solution_def)
next
  case (Cons j xs)
  have j: "j < length (self_c s)" "j < length (original_column_index s)"
    "j < length (variable_names s)"
    using Cons.prems by auto
  have rest: "\<And>i. i \<in> set xs \<Longrightarrow> i < length (self_c s) \<and> i < length (original_column_index s) \<and>
      i < length (variable_names s)"
    using Cons.prems by auto
  show ?case
    using j Cons.IH[OF rest]
    by (auto simp: zero_columns_body_def py_get_def zero_column_def replicate_append_same
        zero_solution_def not_le)
qed

lemma map_of_zero_solution:
  "map_of (zero_solution s js solution) name =
     (if name \<in> (\<lambda>j. variable_names s ! j) ` set js then Some (JReal 0)
      else map_of solution name)"
  unfolding zero_solution_def
  by (induction js arbitrary: solution) (auto simp: update_conv')

lemma vec_np_delete_keep_unlisted:
  assumes "\<And>y. y \<in> set ys \<Longrightarrow> y < i" "i < length (elems v)"
  shows "\<exists>w. vec_np_delete v [i] = Inr w \<and>
              keep_unlisted ys (elems w) = keep_unlisted (ys @ [i]) (elems v) \<and>
              Suc (length (elems w)) = length (elems v)"
proof -
  have "keep_unlisted [] (take i (elems v) @ drop (Suc i) (elems v)) =
        keep_unlisted ([] @ [i]) (elems v)"
    using assms(2) by (intro keep_unlisted_after_del) simp_all
  then have one: "keep_unlisted [i] (elems v) = take i (elems v) @ drop (Suc i) (elems v)"
    by simp
  from keep_unlisted_after_del[OF assms] assms(2) show ?thesis
    by (simp add: vec_np_delete_def np_delete_def one)
qed

lemma zero_columns_del_sorted:
  assumes "sorted idxs" "distinct idxs"
    "\<And>i. i \<in> set idxs \<Longrightarrow> i < length (self_c s) \<and> i < length (variable_names s) \<and>
        i < length (elems (self_lb s)) \<and> i < length (elems (self_ub s)) \<and>
        i < length (original_column_index s)"
  shows "\<exists>lb' ub'. for_loop zero_columns_del (rev idxs) s =
     Inr (s\<lparr>self_c := keep_unlisted idxs (self_c s),
            self_lb := lb', self_ub := ub',
            variable_names := keep_unlisted idxs (variable_names s),
            original_column_index := keep_unlisted idxs (original_column_index s)\<rparr>) \<and>
     elems lb' = keep_unlisted idxs (elems (self_lb s)) \<and>
     elems ub' = keep_unlisted idxs (elems (self_ub s)) \<and>
     (idxs = [] \<longrightarrow> lb' = self_lb s \<and> ub' = self_ub s)"
  using assms
proof (induction idxs arbitrary: s rule: rev_induct)
  case Nil
  then show ?case by simp
next
  case (snoc i ys)
  have lt: "\<And>y. y \<in> set ys \<Longrightarrow> y < i"
    using snoc.prems(1,2) by (auto simp: sorted_append less_le)
  have i: "i < length (self_c s)" "i < length (variable_names s)"
    "i < length (elems (self_lb s))" "i < length (elems (self_ub s))"
    "i < length (original_column_index s)" using snoc.prems(3) by auto
  from py_del_keep_unlisted[OF lt i(1)] obtain c1 where
    c1: "py_del (self_c s) i = Inr c1" "keep_unlisted ys c1 = keep_unlisted (ys @ [i]) (self_c s)"
    "Suc (length c1) = length (self_c s)" by blast
  from py_del_keep_unlisted[OF lt i(2)] obtain v1 where
    v1: "py_del (variable_names s) i = Inr v1"
    "keep_unlisted ys v1 = keep_unlisted (ys @ [i]) (variable_names s)"
    "Suc (length v1) = length (variable_names s)" by blast
  from vec_np_delete_keep_unlisted[OF lt i(3)] obtain l1 where
    l1: "vec_np_delete (self_lb s) [i] = Inr l1"
    "keep_unlisted ys (elems l1) = keep_unlisted (ys @ [i]) (elems (self_lb s))"
    "Suc (length (elems l1)) = length (elems (self_lb s))" by blast
  from vec_np_delete_keep_unlisted[OF lt i(4)] obtain u1 where
    u1: "vec_np_delete (self_ub s) [i] = Inr u1"
    "keep_unlisted ys (elems u1) = keep_unlisted (ys @ [i]) (elems (self_ub s))"
    "Suc (length (elems u1)) = length (elems (self_ub s))" by blast
  from py_del_keep_unlisted[OF lt i(5)] obtain o1 where
    o1: "py_del (original_column_index s) i = Inr o1"
    "keep_unlisted ys o1 = keep_unlisted (ys @ [i]) (original_column_index s)"
    "Suc (length o1) = length (original_column_index s)" by blast
  let ?s1 = "s\<lparr>self_c := c1, self_lb := l1, self_ub := u1, variable_names := v1,
               original_column_index := o1\<rparr>"
  have step: "zero_columns_del i s = Inr ?s1"
    by (simp add: zero_columns_del_def c1 v1 l1 u1 o1)
  have "\<exists>lb' ub'. for_loop zero_columns_del (rev ys) ?s1 =
     Inr (?s1\<lparr>self_c := keep_unlisted ys (self_c ?s1),
            self_lb := lb', self_ub := ub',
            variable_names := keep_unlisted ys (variable_names ?s1),
            original_column_index := keep_unlisted ys (original_column_index ?s1)\<rparr>) \<and>
     elems lb' = keep_unlisted ys (elems (self_lb ?s1)) \<and>
     elems ub' = keep_unlisted ys (elems (self_ub ?s1)) \<and>
     (ys = [] \<longrightarrow> lb' = self_lb ?s1 \<and> ub' = self_ub ?s1)"
  proof (rule snoc.IH)
    show "sorted ys" "distinct ys" using snoc.prems(1,2) by (auto simp: sorted_append)
    fix y assume "y \<in> set ys"
    with lt[of y] i c1(3) v1(3) l1(3) u1(3) o1(3)
    show "y < length (self_c ?s1) \<and> y < length (variable_names ?s1) \<and>
        y < length (elems (self_lb ?s1)) \<and> y < length (elems (self_ub ?s1)) \<and>
        y < length (original_column_index ?s1)" by simp
  qed
  then obtain lb' ub' where r: "for_loop zero_columns_del (rev ys) ?s1 =
     Inr (?s1\<lparr>self_c := keep_unlisted ys (self_c ?s1),
            self_lb := lb', self_ub := ub',
            variable_names := keep_unlisted ys (variable_names ?s1),
            original_column_index := keep_unlisted ys (original_column_index ?s1)\<rparr>)"
    "elems lb' = keep_unlisted ys (elems (self_lb ?s1))"
    "elems ub' = keep_unlisted ys (elems (self_ub ?s1))" by blast
  show ?case
    using step r c1 v1 l1 u1 o1 by (intro exI[of _ lb'] exI[of _ ub']) simp
qed

lemma eliminate_zero_columns_result:
  assumes dims: "dimensions_consistent s" and wf: "journal_wf (change_dictionary s)"
  obtains cd' lb' ub' where "eliminate_zero_columns s =
       Inr (append_operation ''Eliminate Zero Columns''
         (s\<lparr>self_A := \<lparr>ncols = length (keep_unlisted (fixed_zero_columns s)
                                          [0..<ncols (self_A s)]),
                        rws = map (keep_unlisted (fixed_zero_columns s)) (rws (self_A s))\<rparr>,
            warnings := warnings s @
              replicate (length (unbounded_zero_columns s)) Unbounded_zero_column,
            self_c := keep_unlisted (fixed_zero_columns s) (self_c s),
            self_lb := lb', self_ub := ub',
            variable_names := keep_unlisted (fixed_zero_columns s) (variable_names s),
            original_column_index :=
              keep_unlisted (fixed_zero_columns s) (original_column_index s),
            change_dictionary := cd'\<rparr>))"
    "elems lb' = keep_unlisted (fixed_zero_columns s) (elems (self_lb s))"
    "elems ub' = keep_unlisted (fixed_zero_columns s) (elems (self_ub s))"
    "fixed_zero_columns s = [] \<longrightarrow> lb' = self_lb s \<and> ub' = self_ub s"
    "journal_wf cd'"
    "jget [''eliminate_zero_columns'', ''deleted_columns''] cd' =
       Some (JNats (map ((!) (original_column_index s)) (fixed_zero_columns s)))"
    "jget [''eliminate_zero_columns'', ''solution''] cd' =
       Some (JDict (zero_solution s (fixed_zero_columns s) []))"
    "\<forall>r' key'. (r', key') \<noteq> (''eliminate_zero_columns'', ''deleted_columns'') \<and>
               (r', key') \<noteq> (''eliminate_zero_columns'', ''solution'') \<longrightarrow>
        jget [r', key'] cd' = jget [r', key'] (change_dictionary s)"
proof -
  let ?n = "ncols (self_A s)"
  let ?fz = "fixed_zero_columns s"
  from dims have len: "length (self_c s) = ?n" "length (variable_names s) = ?n"
    "length (original_column_index s) = ?n" "length (elems (self_lb s)) = ?n"
    "length (elems (self_ub s)) = ?n"
    by (simp_all add: dimensions_consistent_def)
  have scan: "for_loop (zero_columns_body s) [0..<?n] ([], [], [], []) =
      Inr (?fz, map ((!) (original_column_index s)) ?fz, zero_solution s ?fz [],
           replicate (length (unbounded_zero_columns s)) Unbounded_zero_column)"
    using zero_columns_scan[of "[0..<?n]" s "[]" "[]" "[]" "[]"] len
    by (simp add: fixed_zero_columns_def unbounded_zero_columns_def)
  have in_range: "\<And>i. i \<in> set ?fz \<Longrightarrow> i < ?n"
    by (simp add: fixed_zero_columns_def)
  let ?A' = "\<lparr>ncols = length (keep_unlisted ?fz [0..<?n]),
              rws = map (keep_unlisted ?fz) (rws (self_A s))\<rparr>"
  have del: "delete_cols (self_A s) ?fz = Inr ?A'"
    using in_range by (simp add: delete_cols_def list_all_iff)
  have srt: "sorted ?fz" "distinct ?fz"
    by (simp_all add: fixed_zero_columns_def sorted_wrt_filter)
  let ?s0 = "s\<lparr>self_A := ?A',
      warnings := warnings s @ replicate (length (unbounded_zero_columns s)) Unbounded_zero_column\<rparr>"
  have "\<exists>lb' ub'. for_loop zero_columns_del (rev ?fz) ?s0 =
     Inr (?s0\<lparr>self_c := keep_unlisted ?fz (self_c ?s0),
            self_lb := lb', self_ub := ub',
            variable_names := keep_unlisted ?fz (variable_names ?s0),
            original_column_index := keep_unlisted ?fz (original_column_index ?s0)\<rparr>) \<and>
     elems lb' = keep_unlisted ?fz (elems (self_lb ?s0)) \<and>
     elems ub' = keep_unlisted ?fz (elems (self_ub ?s0)) \<and>
     (?fz = [] \<longrightarrow> lb' = self_lb ?s0 \<and> ub' = self_ub ?s0)"
    using in_range len by (intro zero_columns_del_sorted srt) simp
  then obtain lb' ub' where loop: "for_loop zero_columns_del (sorted_reverse ?fz) ?s0 =
     Inr (?s0\<lparr>self_c := keep_unlisted ?fz (self_c s),
            self_lb := lb', self_ub := ub',
            variable_names := keep_unlisted ?fz (variable_names s),
            original_column_index := keep_unlisted ?fz (original_column_index s)\<rparr>)"
    and bounds: "elems lb' = keep_unlisted ?fz (elems (self_lb s))"
      "elems ub' = keep_unlisted ?fz (elems (self_ub s))"
      "?fz = [] \<longrightarrow> lb' = self_lb s \<and> ub' = self_ub s"
    unfolding sorted_reverse_sorted[OF srt(1)] by auto
  let ?s1 = "?s0\<lparr>self_c := keep_unlisted ?fz (self_c s),
            self_lb := lb', self_ub := ub',
            variable_names := keep_unlisted ?fz (variable_names s),
            original_column_index := keep_unlisted ?fz (original_column_index s)\<rparr>"
  have "journal_wf (change_dictionary ?s1)" using wf by simp
  from set_journal_two_levels[OF this, of "''eliminate_zero_columns''" "''deleted_columns''"
      "JNats (map ((!) (original_column_index s)) ?fz)"]
  obtain cd1 where cd1: "set_journal [''eliminate_zero_columns'', ''deleted_columns'']
        (JNats (map ((!) (original_column_index s)) ?fz)) ?s1 =
        Inr (?s1\<lparr>change_dictionary := cd1\<rparr>)"
    "journal_wf cd1"
    "jget [''eliminate_zero_columns'', ''deleted_columns''] cd1 =
       Some (JNats (map ((!) (original_column_index s)) ?fz))"
    "\<forall>r' key'. (r', key') \<noteq> (''eliminate_zero_columns'', ''deleted_columns'') \<longrightarrow>
        jget [r', key'] cd1 = jget [r', key'] (change_dictionary s)"
    by auto
  let ?s2 = "?s1\<lparr>change_dictionary := cd1\<rparr>"
  have "journal_wf (change_dictionary ?s2)" using cd1(2) by simp
  from set_journal_two_levels[OF this, of "''eliminate_zero_columns''" "''solution''"
      "JDict (zero_solution s ?fz [])"]
  obtain cd2 where cd2: "set_journal [''eliminate_zero_columns'', ''solution'']
        (JDict (zero_solution s ?fz [])) ?s2 = Inr (?s2\<lparr>change_dictionary := cd2\<rparr>)"
    "journal_wf cd2"
    "jget [''eliminate_zero_columns'', ''solution''] cd2 = Some (JDict (zero_solution s ?fz []))"
    "\<forall>r' key'. (r', key') \<noteq> (''eliminate_zero_columns'', ''solution'') \<longrightarrow>
        jget [r', key'] cd2 = jget [r', key'] cd1"
    by auto
  have run: "eliminate_zero_columns s =
      Inr (append_operation ''Eliminate Zero Columns'' (?s1\<lparr>change_dictionary := cd2\<rparr>))"
    using loop cd1(1) cd2(1) by (simp add: eliminate_zero_columns_def scan del)
  have j1: "jget [''eliminate_zero_columns'', ''deleted_columns''] cd2 =
       Some (JNats (map ((!) (original_column_index s)) ?fz))"
    using cd2(4) cd1(3) by simp
  have others: "\<forall>r' key'. (r', key') \<noteq> (''eliminate_zero_columns'', ''deleted_columns'') \<and>
               (r', key') \<noteq> (''eliminate_zero_columns'', ''solution'') \<longrightarrow>
        jget [r', key'] cd2 = jget [r', key'] (change_dictionary s)"
    using cd2(4) cd1(4) by simp
  show ?thesis
    by (rule that[OF run bounds cd2(2) j1 cd2(3) others])
qed

section \<open>Zero rows\<close>

text \<open>
  C2, as stated, fails. On \<open>A = [[0,0],[1,1]]\<close>, \<open>b = [3,2]\<close> the zero row 0 has
  \<open>b[0] > 0\<close>: \<open>eliminate_zero_rows\<close> warns once and returns, but the row stays
  (the branch \<open>else\<close> of \<open>if self.b[i] <= 0\<close> only warns), and
  \<open>deleted_rows_indices\<close> is empty.
\<close>

theorem zero_row_positive_rhs_is_kept:
  "map_sum id
     (\<lambda>s. (rws (self_A s), self_b s, original_row_index s, warnings s,
           jget [''eliminate_zero_rows'', ''deleted_rows_indices''] (change_dictionary s)))
     (eliminate_zero_rows zero_row_infeasible) =
     Inr ([[0, 0], [1, 1]], [3, 2], [0, 1], [Infeasible_zero_row], Some (JNats []))"
  by code_simp

text \<open>
  C2, amended. On a state with consistent dimensions and a well-formed journal
  \<open>eliminate_zero_rows\<close> raises no exception; the rows, \<open>b\<close>, the senses and the
  original row indices that remain are those of the rows that are not zero rows with
  \<open>b[i] \<le> 0\<close>, in order: every zero row with \<open>b[i] > 0\<close> is kept, every zero row with
  \<open>b[i] \<le> 0\<close> is deleted; one infeasibility warning is emitted per zero row with
  \<open>b[i] > 0\<close>; and the journal records the original indices of the deleted rows.
\<close>

theorem eliminate_zero_rows_effect:
  assumes "dimensions_consistent s" "journal_wf (change_dictionary s)"
  shows "\<exists>s'. eliminate_zero_rows s = Inr s' \<and>
     rws (self_A s') = map ((!) (rws (self_A s))) (rows_after_zero_rows s) \<and>
     self_b s' = map ((!) (self_b s)) (rows_after_zero_rows s) \<and>
     cons_senses s' = map ((!) (cons_senses s)) (rows_after_zero_rows s) \<and>
     original_row_index s' = map ((!) (original_row_index s)) (rows_after_zero_rows s) \<and>
     list_all (\<lambda>i. i \<in> set (rows_after_zero_rows s)) (infeasible_zero_rows s) \<and>
     list_all (\<lambda>i. i \<notin> set (rows_after_zero_rows s)) (redundant_zero_rows s) \<and>
     warnings s' =
       warnings s @ replicate (length (infeasible_zero_rows s)) Infeasible_zero_row \<and>
     jget [''eliminate_zero_rows'', ''deleted_rows_indices''] (change_dictionary s') =
       Some (JNats (map ((!) (original_row_index s)) (redundant_zero_rows s)))"
proof -
  from assms(1) have len: "length (rws (self_A s)) = num_rows (self_A s)"
    "length (self_b s) = num_rows (self_A s)" "length (cons_senses s) = num_rows (self_A s)"
    "length (original_row_index s) = num_rows (self_A s)"
    by (simp_all add: dimensions_consistent_def num_rows_def)
  have kept: "keep_unlisted (redundant_zero_rows s) xs = map ((!) xs) (rows_after_zero_rows s)"
    if "length xs = num_rows (self_A s)" for xs :: "'a list"
    unfolding redundant_zero_rows_def rows_after_zero_rows_def
    using that by (rule keep_unlisted_filter_same)
  have inf: "list_all (\<lambda>i. i \<in> set (rows_after_zero_rows s)) (infeasible_zero_rows s)"
    by (auto simp: list_all_iff rows_after_zero_rows_def infeasible_zero_rows_def)
  have red: "list_all (\<lambda>i. i \<notin> set (rows_after_zero_rows s)) (redundant_zero_rows s)"
    by (auto simp: list_all_iff rows_after_zero_rows_def redundant_zero_rows_def)
  from eliminate_zero_rows_result[OF assms] obtain cd' where
    run: "eliminate_zero_rows s =
       Inr (append_operation ''Eliminate Zero Rows''
         (s\<lparr>self_A := (self_A s)\<lparr>rws := keep_unlisted (redundant_zero_rows s) (rws (self_A s))\<rparr>,
            warnings := warnings s @
              replicate (length (infeasible_zero_rows s)) Infeasible_zero_row,
            self_b := keep_unlisted (redundant_zero_rows s) (self_b s),
            cons_senses := keep_unlisted (redundant_zero_rows s) (cons_senses s),
            original_row_index := keep_unlisted (redundant_zero_rows s) (original_row_index s),
            change_dictionary := cd'\<rparr>))"
    and j: "jget [''eliminate_zero_rows'', ''deleted_rows_indices''] cd' =
       Some (JNats (map ((!) (original_row_index s)) (redundant_zero_rows s)))"
    by blast
  show ?thesis
    unfolding run
    using j inf red by (simp add: append_operation_def kept len)
qed

theorem eliminate_zero_rows_effect_witness:
  "dimensions_consistent zero_rows_example \<and>
   journal_wf (change_dictionary zero_rows_example) \<and>
   (\<exists>s'. eliminate_zero_rows zero_rows_example = Inr s' \<and>
      rws (self_A s') = [[0, 0], [1, 1]] \<and> self_b s' = [3, 2] \<and>
      original_row_index s' = [0, 1] \<and> warnings s' = [Infeasible_zero_row] \<and>
      jget [''eliminate_zero_rows'', ''deleted_rows_indices''] (change_dictionary s') =
        Some (JNats [2]))"
proof -
  have d: "dimensions_consistent zero_rows_example" by code_simp
  have w: "journal_wf (change_dictionary zero_rows_example)" by code_simp
  have k: "rows_after_zero_rows zero_rows_example = [0, 1]"
    "infeasible_zero_rows zero_rows_example = [0]"
    "redundant_zero_rows zero_rows_example = [2]" by code_simp+
  have v: "rws (self_A zero_rows_example) = [[0, 0], [1, 1], [0, 0]]"
    "self_b zero_rows_example = [3, 2, 0]" "original_row_index zero_rows_example = [0, 1, 2]"
    "warnings zero_rows_example = []" by code_simp+
  from eliminate_zero_rows_effect[OF d w] d w show ?thesis
    unfolding k v by auto
qed

section \<open>Zero columns\<close>

text \<open>
  C9. On a state with consistent dimensions and a well-formed journal
  \<open>eliminate_zero_columns\<close> raises no exception; every zero column with \<open>c[j] \<ge> 0\<close>
  is deleted from \<open>A\<close>, \<open>c\<close>, the bounds, the names and the column index, the other
  columns stay in order; the original indices of the deleted columns are recorded
  under \<open>deleted_columns\<close>; \<open>solution\<close> maps the name of every deleted variable to
  0; and one unboundedness warning is emitted per zero column with \<open>c[j] < 0\<close>.
\<close>

theorem eliminate_zero_columns_effect:
  assumes "dimensions_consistent s" "journal_wf (change_dictionary s)"
  shows "\<exists>s' solution. eliminate_zero_columns s = Inr s' \<and>
     ncols (self_A s') = length (columns_after_zero_columns s) \<and>
     rws (self_A s') =
       map (\<lambda>r. map ((!) r) (columns_after_zero_columns s)) (rws (self_A s)) \<and>
     self_c s' = map ((!) (self_c s)) (columns_after_zero_columns s) \<and>
     elems (self_lb s') = map ((!) (elems (self_lb s))) (columns_after_zero_columns s) \<and>
     elems (self_ub s') = map ((!) (elems (self_ub s))) (columns_after_zero_columns s) \<and>
     variable_names s' = map ((!) (variable_names s)) (columns_after_zero_columns s) \<and>
     original_column_index s' =
       map ((!) (original_column_index s)) (columns_after_zero_columns s) \<and>
     list_all (\<lambda>j. j \<notin> set (columns_after_zero_columns s)) (fixed_zero_columns s) \<and>
     jget [''eliminate_zero_columns'', ''deleted_columns''] (change_dictionary s') =
       Some (JNats (map ((!) (original_column_index s)) (fixed_zero_columns s))) \<and>
     jget [''eliminate_zero_columns'', ''solution''] (change_dictionary s') =
       Some (JDict solution) \<and>
     list_all (\<lambda>j. map_of solution (variable_names s ! j) = Some (JReal 0))
       (fixed_zero_columns s) \<and>
     warnings s' =
       warnings s @ replicate (length (unbounded_zero_columns s)) Unbounded_zero_column"
proof -
  let ?n = "ncols (self_A s)"
  from assms(1) have len: "length (self_c s) = ?n" "length (variable_names s) = ?n"
    "length (original_column_index s) = ?n" "length (elems (self_lb s)) = ?n"
    "length (elems (self_ub s)) = ?n"
    and rows: "\<And>r. r \<in> set (rws (self_A s)) \<Longrightarrow> length r = ?n"
    by (simp_all add: dimensions_consistent_def wf_matrix_def list_all_iff)
  have kept: "keep_unlisted (fixed_zero_columns s) xs =
      map ((!) xs) (columns_after_zero_columns s)"
    if "length xs = ?n" for xs :: "'a list"
    unfolding fixed_zero_columns_def columns_after_zero_columns_def
    using that by (rule keep_unlisted_filter_same)
  have kept_rows: "map (keep_unlisted (fixed_zero_columns s)) (rws (self_A s)) =
      map (\<lambda>r. map ((!) r) (columns_after_zero_columns s)) (rws (self_A s))"
    using rows by (intro map_cong refl kept) simp
  have kept_n: "length (keep_unlisted (fixed_zero_columns s) [0..<?n]) =
      length (columns_after_zero_columns s)"
    by (simp add: kept)
  have fixed: "list_all (\<lambda>j. j \<notin> set (columns_after_zero_columns s)) (fixed_zero_columns s)"
    by (auto simp: list_all_iff columns_after_zero_columns_def fixed_zero_columns_def)
  have sol: "list_all (\<lambda>j. map_of (zero_solution s (fixed_zero_columns s) [])
        (variable_names s ! j) = Some (JReal 0)) (fixed_zero_columns s)"
    by (auto simp: list_all_iff map_of_zero_solution)
  from assms show ?thesis
  proof (rule eliminate_zero_columns_result)
    fix cd' lb' ub'
    assume run: "eliminate_zero_columns s =
       Inr (append_operation ''Eliminate Zero Columns''
         (s\<lparr>self_A := \<lparr>ncols = length (keep_unlisted (fixed_zero_columns s)
                                          [0..<ncols (self_A s)]),
                        rws = map (keep_unlisted (fixed_zero_columns s)) (rws (self_A s))\<rparr>,
            warnings := warnings s @
              replicate (length (unbounded_zero_columns s)) Unbounded_zero_column,
            self_c := keep_unlisted (fixed_zero_columns s) (self_c s),
            self_lb := lb', self_ub := ub',
            variable_names := keep_unlisted (fixed_zero_columns s) (variable_names s),
            original_column_index :=
              keep_unlisted (fixed_zero_columns s) (original_column_index s),
            change_dictionary := cd'\<rparr>))"
      and b: "elems lb' = keep_unlisted (fixed_zero_columns s) (elems (self_lb s))"
        "elems ub' = keep_unlisted (fixed_zero_columns s) (elems (self_ub s))"
      and j: "jget [''eliminate_zero_columns'', ''deleted_columns''] cd' =
         Some (JNats (map ((!) (original_column_index s)) (fixed_zero_columns s)))"
        "jget [''eliminate_zero_columns'', ''solution''] cd' =
         Some (JDict (zero_solution s (fixed_zero_columns s) []))"
    show ?thesis
      unfolding run
      using j b fixed sol
      by (simp add: append_operation_def kept len kept_rows kept_n)
  qed
qed

theorem eliminate_zero_columns_effect_witness:
  "dimensions_consistent zero_columns_example \<and>
   journal_wf (change_dictionary zero_columns_example) \<and>
   (\<exists>s' solution. eliminate_zero_columns zero_columns_example = Inr s' \<and>
      rws (self_A s') = [[1, 0], [1, 0]] \<and> self_c s' = [2, -1] \<and>
      variable_names s' = [''x1'', ''x2''] \<and> original_column_index s' = [1, 2] \<and>
      jget [''eliminate_zero_columns'', ''deleted_columns''] (change_dictionary s') =
        Some (JNats [0]) \<and>
      jget [''eliminate_zero_columns'', ''solution''] (change_dictionary s') =
        Some (JDict solution) \<and>
      map_of solution ''x0'' = Some (JReal 0) \<and>
      warnings s' = [Unbounded_zero_column])"
proof -
  have d: "dimensions_consistent zero_columns_example" by code_simp
  have w: "journal_wf (change_dictionary zero_columns_example)" by code_simp
  have k: "columns_after_zero_columns zero_columns_example = [1, 2]"
    "fixed_zero_columns zero_columns_example = [0]"
    "unbounded_zero_columns zero_columns_example = [2]" by code_simp+
  have v: "rws (self_A zero_columns_example) = [[0, 1, 0], [0, 1, 0]]"
    "self_c zero_columns_example = [5, 2, -1]"
    "variable_names zero_columns_example = [''x0'', ''x1'', ''x2'']"
    "original_column_index zero_columns_example = [0, 1, 2]"
    "warnings zero_columns_example = []" by code_simp+
  from eliminate_zero_columns_effect[OF d w] obtain s' solution where
    "eliminate_zero_columns zero_columns_example = Inr s'"
    "rws (self_A s') =
       map (\<lambda>r. map ((!) r) (columns_after_zero_columns zero_columns_example))
         (rws (self_A zero_columns_example))"
    "self_c s' = map ((!) (self_c zero_columns_example))
       (columns_after_zero_columns zero_columns_example)"
    "variable_names s' = map ((!) (variable_names zero_columns_example))
       (columns_after_zero_columns zero_columns_example)"
    "original_column_index s' = map ((!) (original_column_index zero_columns_example))
       (columns_after_zero_columns zero_columns_example)"
    "jget [''eliminate_zero_columns'', ''deleted_columns''] (change_dictionary s') =
       Some (JNats (map ((!) (original_column_index zero_columns_example))
         (fixed_zero_columns zero_columns_example)))"
    "jget [''eliminate_zero_columns'', ''solution''] (change_dictionary s') =
       Some (JDict solution)"
    "list_all (\<lambda>j. map_of solution (variable_names zero_columns_example ! j) = Some (JReal 0))
       (fixed_zero_columns zero_columns_example)"
    "warnings s' = warnings zero_columns_example @
       replicate (length (unbounded_zero_columns zero_columns_example)) Unbounded_zero_column"
    by (elim exE conjE) (rule that; assumption)
  then show ?thesis
    unfolding k v using d w by (intro conjI exI[of _ s'] exI[of _ solution]) simp_all
qed

section \<open>Running the engine on its own output: the zero rules\<close>




lemma keep_unlisted_nth_filter:
  assumes "length xs = n" "i < length (filter (\<lambda>j. \<not> P j) [0..<n])"
  shows "keep_unlisted (filter P [0..<n]) xs ! i = xs ! (filter (\<lambda>j. \<not> P j) [0..<n] ! i)"
  using assms by (simp add: keep_unlisted_filter_same)












end
